theory Spec2Isabelle
  imports Main "HOL-Library.Word"
begin

unbundle bit_operations_syntax

section \<open>Machine types\<close>

text \<open>
  The engine is Go code for Linux. Fixed-width unsigned integers are words; Go's \<open>int\<close>
  is taken at its width on a 64-bit target, so that \<open>int(x)\<close> of a \<open>uint32\<close> is a
  zero extension. \<open>syscall.Errno\<close> is a number.
\<close>

type_synonym byte = "8 word"
type_synonym u16 = "16 word"
type_synonym u32 = "32 word"
type_synonym u64 = "64 word"
type_synonym go_int = "64 word"
type_synonym Errno = nat

definition EINVAL :: Errno where "EINVAL = 22"
definition EPERM :: Errno where "EPERM = 1"
definition EBADF :: Errno where "EBADF = 9"

section \<open>The little-endian codec of encoding/binary\<close>

text \<open>
  \<open>byteOrder = binary.LittleEndian\<close>. \<open>PutUint\<close>\<open>N\<close> is what \<open>binary.Write\<close> emits for
  one field, \<open>Uint\<close>\<open>N\<close> what \<open>binary.Read\<close> decodes from the first bytes of its buffer.
  The decoders are only ever applied to a buffer that \<open>io.ReadFull\<close> has filled.
\<close>

definition PutUint16 :: "u16 \<Rightarrow> byte list" where
  "PutUint16 v = [ucast v, ucast (drop_bit 8 v)]"

definition PutUint32 :: "u32 \<Rightarrow> byte list" where
  "PutUint32 v = [ucast v, ucast (drop_bit 8 v), ucast (drop_bit 16 v), ucast (drop_bit 24 v)]"

definition PutUint64 :: "u64 \<Rightarrow> byte list" where
  "PutUint64 v = [ucast v, ucast (drop_bit 8 v), ucast (drop_bit 16 v), ucast (drop_bit 24 v),
     ucast (drop_bit 32 v), ucast (drop_bit 40 v), ucast (drop_bit 48 v), ucast (drop_bit 56 v)]"

fun Uint16 :: "byte list \<Rightarrow> u16" where
  "Uint16 (b0 # b1 # _) = ucast b0 OR push_bit 8 (ucast b1)"
| "Uint16 _ = 0"

fun Uint32 :: "byte list \<Rightarrow> u32" where
  "Uint32 (b0 # b1 # b2 # b3 # _) =
     ucast b0 OR push_bit 8 (ucast b1) OR push_bit 16 (ucast b2) OR push_bit 24 (ucast b3)"
| "Uint32 _ = 0"

fun Uint64 :: "byte list \<Rightarrow> u64" where
  "Uint64 (b0 # b1 # b2 # b3 # b4 # b5 # b6 # b7 # _) =
     ucast b0 OR push_bit 8 (ucast b1) OR push_bit 16 (ucast b2) OR push_bit 24 (ucast b3) OR
     push_bit 32 (ucast b4) OR push_bit 40 (ucast b5) OR push_bit 48 (ucast b6) OR
     push_bit 56 (ucast b7)"
| "Uint64 _ = 0"

text \<open>
  \<open>binary.Read(buf, order, data)\<close> on a \<open>bytes.Buffer\<close>: \<open>io.ReadFull\<close> asks for
  \<open>binary.Size(data)\<close> bytes. When the buffer holds fewer, the buffer is drained, an error
  is returned and \<open>data\<close> is left as it was; otherwise the bytes are consumed and decoded.
  Every call site of the engine discards the error (\<open>_ = binary.Read(...)\<close>) and reads
  into a freshly zeroed struct, which is \<open>read_into\<close>.
\<close>

definition binary_Read :: "nat \<Rightarrow> (byte list \<Rightarrow> 'a) \<Rightarrow> byte list \<Rightarrow> 'a option \<times> byte list" where
  "binary_Read n decode buf =
     (if length buf < n then (None, [])
      else (Some (decode (take n buf)), drop n buf))"

definition read_into :: "'a \<Rightarrow> nat \<Rightarrow> (byte list \<Rightarrow> 'a) \<Rightarrow> byte list \<Rightarrow> 'a \<times> byte list" where
  "read_into zero n decode buf =
     (case binary_Read n decode buf of
        (None, rest) \<Rightarrow> (zero, rest)
      | (Some v, rest) \<Rightarrow> (v, rest))"

section \<open>The wire structures\<close>

text \<open>
  Field names are the source's. Where two structs share a field name the later one carries
  a prefix: the fields of \<open>syscall.NlMsghdr\<close> are \<open>nl_\<close>, those of
  \<open>syscall.NetlinkMessage\<close> are \<open>msg_\<close>, those of \<open>execProcEvent\<close> and
  \<open>exitProcEvent\<close> are \<open>exec_\<close> and \<open>exit_\<close>.
\<close>

definition CN_IDX_PROC :: u32 where "CN_IDX_PROC = 0x1"
definition CN_VAL_PROC :: u32 where "CN_VAL_PROC = 0x1"
definition PROC_CN_MCAST_LISTEN :: u32 where "PROC_CN_MCAST_LISTEN = 1"
definition PROC_CN_MCAST_IGNORE :: u32 where "PROC_CN_MCAST_IGNORE = 2"
definition PROC_EVENT_FORK :: u32 where "PROC_EVENT_FORK = 0x00000001"
definition PROC_EVENT_EXEC :: u32 where "PROC_EVENT_EXEC = 0x00000002"
definition PROC_EVENT_EXIT :: u32 where "PROC_EVENT_EXIT = 0x80000000"

definition NLMSG_HDRLEN :: nat where "NLMSG_HDRLEN = 16"
definition NLMSG_DONE :: u16 where "NLMSG_DONE = 0x3"
definition AF_NETLINK :: u16 where "AF_NETLINK = 0x10"

record cbId =
  Idx :: u32
  Val :: u32

record cnMsg =
  Id :: cbId
  Seq :: u32
  Ack :: u32
  Len :: u16
  Flags :: u16

record procEventHeader =
  What :: u32
  Cpu :: u32
  Timestamp :: u64

record forkProcEvent =
  ParentPid :: u32
  ParentTgid :: u32
  ChildPid :: u32
  ChildTgid :: u32

record execProcEvent =
  exec_ProcessPid :: u32
  exec_ProcessTgid :: u32

record exitProcEvent =
  exit_ProcessPid :: u32
  exit_ProcessTgid :: u32
  ExitCode :: u32
  ExitSignal :: u32

record NlMsghdr =
  nl_Len :: u32
  nl_Type :: u16
  nl_Flags :: u16
  nl_Seq :: u32
  nl_Pid :: u32

record NetLinkMessage =
  Header :: NlMsghdr
  Data :: cnMsg

record NetlinkMessage =
  msg_Header :: NlMsghdr
  msg_Data :: "byte list"

subsection \<open>Zero values\<close>

definition zero_cnMsg :: cnMsg where
  "zero_cnMsg = \<lparr>Id = \<lparr>Idx = 0, Val = 0\<rparr>, Seq = 0, Ack = 0, Len = 0, Flags = 0\<rparr>"

definition zero_procEventHeader :: procEventHeader where
  "zero_procEventHeader = \<lparr>What = 0, Cpu = 0, Timestamp = 0\<rparr>"

definition zero_forkProcEvent :: forkProcEvent where
  "zero_forkProcEvent = \<lparr>ParentPid = 0, ParentTgid = 0, ChildPid = 0, ChildTgid = 0\<rparr>"

definition zero_execProcEvent :: execProcEvent where
  "zero_execProcEvent = \<lparr>exec_ProcessPid = 0, exec_ProcessTgid = 0\<rparr>"

definition zero_exitProcEvent :: exitProcEvent where
  "zero_exitProcEvent =
     \<lparr>exit_ProcessPid = 0, exit_ProcessTgid = 0, ExitCode = 0, ExitSignal = 0\<rparr>"

definition zero_NlMsghdr :: NlMsghdr where
  "zero_NlMsghdr = \<lparr>nl_Len = 0, nl_Type = 0, nl_Flags = 0, nl_Seq = 0, nl_Pid = 0\<rparr>"

definition zero_NetLinkMessage :: NetLinkMessage where
  "zero_NetLinkMessage = \<lparr>Header = zero_NlMsghdr, Data = zero_cnMsg\<rparr>"

subsection \<open>Struct layouts: fields in declaration order, no padding\<close>

definition encode_cnMsg :: "cnMsg \<Rightarrow> byte list" where
  "encode_cnMsg m =
     PutUint32 (Idx (Id m)) @ PutUint32 (Val (Id m)) @ PutUint32 (Seq m) @ PutUint32 (Ack m) @
     PutUint16 (Len m) @ PutUint16 (Flags m)"

definition decode_cnMsg :: "byte list \<Rightarrow> cnMsg" where
  "decode_cnMsg bs =
     \<lparr>Id = \<lparr>Idx = Uint32 bs, Val = Uint32 (drop 4 bs)\<rparr>,
      Seq = Uint32 (drop 8 bs), Ack = Uint32 (drop 12 bs),
      Len = Uint16 (drop 16 bs), Flags = Uint16 (drop 18 bs)\<rparr>"

definition encode_procEventHeader :: "procEventHeader \<Rightarrow> byte list" where
  "encode_procEventHeader h = PutUint32 (What h) @ PutUint32 (Cpu h) @ PutUint64 (Timestamp h)"

definition decode_procEventHeader :: "byte list \<Rightarrow> procEventHeader" where
  "decode_procEventHeader bs =
     \<lparr>What = Uint32 bs, Cpu = Uint32 (drop 4 bs), Timestamp = Uint64 (drop 8 bs)\<rparr>"

definition encode_forkProcEvent :: "forkProcEvent \<Rightarrow> byte list" where
  "encode_forkProcEvent e =
     PutUint32 (ParentPid e) @ PutUint32 (ParentTgid e) @
     PutUint32 (ChildPid e) @ PutUint32 (ChildTgid e)"

definition decode_forkProcEvent :: "byte list \<Rightarrow> forkProcEvent" where
  "decode_forkProcEvent bs =
     \<lparr>ParentPid = Uint32 bs, ParentTgid = Uint32 (drop 4 bs),
      ChildPid = Uint32 (drop 8 bs), ChildTgid = Uint32 (drop 12 bs)\<rparr>"

definition encode_execProcEvent :: "execProcEvent \<Rightarrow> byte list" where
  "encode_execProcEvent e = PutUint32 (exec_ProcessPid e) @ PutUint32 (exec_ProcessTgid e)"

definition decode_execProcEvent :: "byte list \<Rightarrow> execProcEvent" where
  "decode_execProcEvent bs =
     \<lparr>exec_ProcessPid = Uint32 bs, exec_ProcessTgid = Uint32 (drop 4 bs)\<rparr>"

definition encode_exitProcEvent :: "exitProcEvent \<Rightarrow> byte list" where
  "encode_exitProcEvent e =
     PutUint32 (exit_ProcessPid e) @ PutUint32 (exit_ProcessTgid e) @
     PutUint32 (ExitCode e) @ PutUint32 (ExitSignal e)"

definition decode_exitProcEvent :: "byte list \<Rightarrow> exitProcEvent" where
  "decode_exitProcEvent bs =
     \<lparr>exit_ProcessPid = Uint32 bs, exit_ProcessTgid = Uint32 (drop 4 bs),
      ExitCode = Uint32 (drop 8 bs), ExitSignal = Uint32 (drop 12 bs)\<rparr>"

definition encode_NlMsghdr :: "NlMsghdr \<Rightarrow> byte list" where
  "encode_NlMsghdr h =
     PutUint32 (nl_Len h) @ PutUint16 (nl_Type h) @ PutUint16 (nl_Flags h) @
     PutUint32 (nl_Seq h) @ PutUint32 (nl_Pid h)"

definition decode_NlMsghdr :: "byte list \<Rightarrow> NlMsghdr" where
  "decode_NlMsghdr bs =
     \<lparr>nl_Len = Uint32 bs, nl_Type = Uint16 (drop 4 bs), nl_Flags = Uint16 (drop 6 bs),
      nl_Seq = Uint32 (drop 8 bs), nl_Pid = Uint32 (drop 12 bs)\<rparr>"

definition encode_NetLinkMessage :: "NetLinkMessage \<Rightarrow> byte list" where
  "encode_NetLinkMessage pr = encode_NlMsghdr (Header pr) @ encode_cnMsg (Data pr)"

text \<open>\<open>binary.Size\<close> of the values the engine reads and writes.\<close>

definition Size_cnMsg :: nat where "Size_cnMsg = 20"
definition Size_procEventHeader :: nat where "Size_procEventHeader = 16"
definition Size_forkProcEvent :: nat where "Size_forkProcEvent = 16"
definition Size_execProcEvent :: nat where "Size_execProcEvent = 8"
definition Size_exitProcEvent :: nat where "Size_exitProcEvent = 16"
definition Size_uint32 :: nat where "Size_uint32 = 4"

section \<open>syscall.ParseNetlinkMessage\<close>

text \<open>
  The library routine that splits a received datagram into envelopes. The header is read
  in place in host byte order, little-endian on the targets the engine runs on.
  \<open>nlmAlignOf\<close> rounds up to \<open>NLMSG_ALIGNTO = 4\<close>.
\<close>

definition nlmAlignOf :: "int \<Rightarrow> int" where
  "nlmAlignOf msglen = (msglen + 3) AND NOT 3"

definition netlinkMessageHeaderAndData ::
    "byte list \<Rightarrow> Errno + (NlMsghdr \<times> byte list \<times> int)" where
  "netlinkMessageHeaderAndData b =
     (let h = decode_NlMsghdr b;
          l = nlmAlignOf (uint (nl_Len h))
      in if uint (nl_Len h) < int NLMSG_HDRLEN \<or> l > int (length b) then Inl EINVAL
         else Inr (h, drop NLMSG_HDRLEN b, l))"

lemma nlmAlignOf_div: "nlmAlignOf n = 4 * ((n + 3) div 4)"
proof -
  have m: "(3::int) = mask 2" by (simp add: mask_eq_exp_minus_1)
  have "(n + 3) AND NOT (mask 2) = push_bit 2 (drop_bit 2 (n + 3))"
  proof (rule bit_eqI)
    fix i :: nat
    show "bit ((n + 3) AND NOT (mask 2)) i = bit (push_bit 2 (drop_bit 2 (n + 3))) i"
    proof (cases "i < 2")
      case True
      then show ?thesis by (simp add: bit_simps)
    next
      case False
      then obtain k where "i = k + 2" by (metis add.commute le_add_diff_inverse not_less)
      then show ?thesis by (simp add: bit_simps)
    qed
  qed
  then show ?thesis
    unfolding nlmAlignOf_def m by (simp add: push_bit_eq_mult drop_bit_eq_div)
qed

lemma nlmAlignOf_ge: "n \<le> nlmAlignOf n"
  unfolding nlmAlignOf_div by presburger

lemma netlinkMessageHeaderAndData_dlen:
  "netlinkMessageHeaderAndData b = Inr (h, dbuf, dlen) \<Longrightarrow> 16 \<le> dlen"
  using nlmAlignOf_ge [of "uint (nl_Len (decode_NlMsghdr b))"]
  by (auto simp: netlinkMessageHeaderAndData_def Let_def NLMSG_HDRLEN_def split: if_splits)

text \<open>
  The loop of \<open>ParseNetlinkMessage\<close>, with the slice of messages built so far as an
  accumulator. An envelope that fails the header check discards everything parsed before it:
  the routine returns \<open>nil, EINVAL\<close>.
\<close>

function ParseNetlinkMessage_loop ::
    "byte list \<Rightarrow> NetlinkMessage list \<Rightarrow> Errno + NetlinkMessage list" where
  "ParseNetlinkMessage_loop b msgs =
     (if NLMSG_HDRLEN \<le> length b then
        (case netlinkMessageHeaderAndData b of
           Inl err \<Rightarrow> Inl err
         | Inr (h, dbuf, dlen) \<Rightarrow>
             ParseNetlinkMessage_loop (drop (nat dlen) b)
               (msgs @ [\<lparr>msg_Header = h,
                          msg_Data = take (nat (uint (nl_Len h) - int NLMSG_HDRLEN)) dbuf\<rparr>]))
      else Inr msgs)"
  by pat_completeness auto
termination
proof (relation "measure (\<lambda>(b, msgs). length b)")
  show "wf (measure (\<lambda>(b, msgs). length b))" by simp
next
  fix b :: "byte list" and msgs :: "NetlinkMessage list" and x2 h y dbuf dlen
  assume len: "NLMSG_HDRLEN \<le> length b"
    and r: "netlinkMessageHeaderAndData b = Inr x2" "(h, y) = x2" "(dbuf, dlen) = y"
  from r have "netlinkMessageHeaderAndData b = Inr (h, dbuf, dlen)" by simp
  then have "16 \<le> dlen" by (rule netlinkMessageHeaderAndData_dlen)
  with len show "((drop (nat dlen) b,
      msgs @ [\<lparr>msg_Header = h,
               msg_Data = take (nat (uint (nl_Len h) - int NLMSG_HDRLEN)) dbuf\<rparr>]), b, msgs)
    \<in> measure (\<lambda>(b, msgs). length b)"
    by (simp add: NLMSG_HDRLEN_def)
qed

definition ParseNetlinkMessage :: "byte list \<Rightarrow> Errno + NetlinkMessage list" where
  "ParseNetlinkMessage b = ParseNetlinkMessage_loop b []"

section \<open>The engine\<close>

subsection \<open>State\<close>

text \<open>
  The consumer-facing events, with Go's \<open>int\<close> fields. \<open>ProcEventFork\<close> repeats the field
  names of \<open>forkProcEvent\<close>, so its fields carry the prefix \<open>Fork_\<close>; likewise
  \<open>Exec_\<close> and \<open>Exit_\<close>.
\<close>

record ProcEventFork =
  Fork_ParentPid :: go_int
  Fork_ChildPid :: go_int

record ProcEventExec =
  Exec_Pid :: go_int

record ProcEventExit =
  Exit_Pid :: go_int

record watch =
  flags :: u32

record SockaddrNetlink =
  Family :: u16
  Groups :: u32

record NetLink =
  addr :: "SockaddrNetlink option"
  sock :: go_int
  seq :: u32

text \<open>
  The four output channels are unbuffered and read by the consumer. A send on an open
  channel is modelled as completed by a consumer that keeps receiving: it appends to
  \<open>delivered\<close>, one log for all four queues so that the order across queues is kept; the
  constructor names the queue. A send on a closed channel and a second \<open>close\<close> panic.
  \<open>done_chan\<close> is the content of the channel \<open>done\<close>, made with capacity 1. The mutexes
  and \<open>listeners\<close> are never used by the source and are left out.
\<close>

datatype delivery =
    OnFork ProcEventFork
  | OnExec ProcEventExec
  | OnExit ProcEventExit
  | OnError Errno

text \<open>The deliveries that went to the error queue.\<close>

definition is_error :: "delivery \<Rightarrow> bool" where
  "is_error d = (case d of OnError _ \<Rightarrow> True | _ \<Rightarrow> False)"

datatype panic = SendOnClosedChannel | CloseOfClosedChannel

record PsEvent =
  listener :: NetLink
  watches :: "go_int \<rightharpoonup> watch"
  Error_closed :: bool
  Fork_closed :: bool
  Exec_closed :: bool
  Exit_closed :: bool
  delivered :: "delivery list"
  done_chan :: "bool list"
  isClosed :: bool

definition send_Fork :: "ProcEventFork \<Rightarrow> PsEvent \<Rightarrow> panic + PsEvent" where
  "send_Fork ev p =
     (if Fork_closed p then Inl SendOnClosedChannel
      else Inr (p\<lparr>delivered := delivered p @ [OnFork ev]\<rparr>))"

definition send_Exec :: "ProcEventExec \<Rightarrow> PsEvent \<Rightarrow> panic + PsEvent" where
  "send_Exec ev p =
     (if Exec_closed p then Inl SendOnClosedChannel
      else Inr (p\<lparr>delivered := delivered p @ [OnExec ev]\<rparr>))"

definition send_Exit :: "ProcEventExit \<Rightarrow> PsEvent \<Rightarrow> panic + PsEvent" where
  "send_Exit ev p =
     (if Exit_closed p then Inl SendOnClosedChannel
      else Inr (p\<lparr>delivered := delivered p @ [OnExit ev]\<rparr>))"

definition send_Error :: "Errno \<Rightarrow> PsEvent \<Rightarrow> panic + PsEvent" where
  "send_Error err p =
     (if Error_closed p then Inl SendOnClosedChannel
      else Inr (p\<lparr>delivered := delivered p @ [OnError err]\<rparr>))"

subsection \<open>finish and isDone\<close>

definition finish :: "PsEvent \<Rightarrow> panic + PsEvent" where
  "finish p =
     (if Fork_closed p then Inl CloseOfClosedChannel
      else if Exec_closed p then Inl CloseOfClosedChannel
      else if Exit_closed p then Inl CloseOfClosedChannel
      else if Error_closed p then Inl CloseOfClosedChannel
      else Inr (p\<lparr>Fork_closed := True, Exec_closed := True,
                  Exit_closed := True, Error_closed := True\<rparr>))"

text \<open>
  The \<open>select\<close> with a \<open>default\<close>: when \<open>done\<close> holds a value it is taken, \<open>finish\<close>
  runs and the value is returned; otherwise \<open>false\<close>.
\<close>

definition isDone :: "PsEvent \<Rightarrow> panic + (bool \<times> PsEvent)" where
  "isDone p =
     (case done_chan p of
        [] \<Rightarrow> Inr (False, p)
      | d # ds \<Rightarrow>
          (case finish (p\<lparr>done_chan := ds\<rparr>) of
             Inl e \<Rightarrow> Inl e
           | Inr p' \<Rightarrow> Inr (d, p')))"

subsection \<open>handleEvent\<close>

definition handleEvent :: "byte list \<Rightarrow> PsEvent \<Rightarrow> panic + PsEvent" where
  "handleEvent data p =
     (let buf = data;
          (msg, buf) = read_into zero_cnMsg Size_cnMsg decode_cnMsg buf;
          (hdr, buf) = read_into zero_procEventHeader Size_procEventHeader
                         decode_procEventHeader buf
      in if What hdr = PROC_EVENT_FORK then
           (let (event, buf) = read_into zero_forkProcEvent Size_forkProcEvent
                                 decode_forkProcEvent buf;
                ppid = ucast (ParentTgid event);
                pid = ucast (ChildTgid event)
            in send_Fork \<lparr>Fork_ParentPid = ppid, Fork_ChildPid = pid\<rparr> p)
         else if What hdr = PROC_EVENT_EXEC then
           (let (event, buf) = read_into zero_execProcEvent Size_execProcEvent
                                 decode_execProcEvent buf;
                pid = ucast (exec_ProcessTgid event)
            in send_Exec \<lparr>Exec_Pid = pid\<rparr> p)
         else if What hdr = PROC_EVENT_EXIT then
           (let (event, buf) = read_into zero_exitProcEvent Size_exitProcEvent
                                 decode_exitProcEvent buf;
                pid = ucast (exit_ProcessTgid event)
            in send_Exit \<lparr>Exit_Pid = pid\<rparr> p)
         else Inr p)"

subsection \<open>readEvents\<close>

text \<open>The body of \<open>for _, m := range msgs\<close>.\<close>

fun handle_msgs :: "NetlinkMessage list \<Rightarrow> PsEvent \<Rightarrow> panic + PsEvent" where
  "handle_msgs [] p = Inr p"
| "handle_msgs (m # ms) p =
     (if nl_Type (msg_Header m) = NLMSG_DONE then
        (case handleEvent (msg_Data m) p of
           Inl e \<Rightarrow> Inl e
         | Inr p' \<Rightarrow> handle_msgs ms p')
      else handle_msgs ms p)"

text \<open>
  \<open>syscall.Recvfrom\<close> is the environment: a run of the loop is driven by the list of its
  results, \<open>RecvErr err\<close> for a failure and \<open>RecvOk (buf[:nr])\<close> for a datagram. With
  the list used up the loop is blocked in \<open>Recvfrom\<close>.
\<close>

datatype recv = RecvErr Errno | RecvOk "byte list"

datatype outcome = Returned PsEvent | Blocked PsEvent | Panicked panic

text \<open>What one pass of the loop does with the result of \<open>Recvfrom\<close>, up to \<open>continue\<close>.\<close>

definition on_recv :: "recv \<Rightarrow> PsEvent \<Rightarrow> panic + PsEvent" where
  "on_recv r p =
     (case r of
        RecvErr err \<Rightarrow> send_Error err p
      | RecvOk frame \<Rightarrow>
          if length frame < NLMSG_HDRLEN then send_Error EINVAL p
          else (let msgs = (case ParseNetlinkMessage frame of Inl _ \<Rightarrow> [] | Inr ms \<Rightarrow> ms)
                in handle_msgs msgs p))"

fun readEvents :: "recv list \<Rightarrow> PsEvent \<Rightarrow> outcome" where
  "readEvents [] p =
     (case isDone p of
        Inl e \<Rightarrow> Panicked e
      | Inr (True, p') \<Rightarrow> Returned p'
      | Inr (False, p') \<Rightarrow> Blocked p')"
| "readEvents (r # rs) p =
     (case isDone p of
        Inl e \<Rightarrow> Panicked e
      | Inr (True, p') \<Rightarrow> Returned p'
      | Inr (False, p') \<Rightarrow>
          (case on_recv r p' of
             Inl e \<Rightarrow> Panicked e
           | Inr p'' \<Rightarrow> readEvents rs p''))"

text \<open>The outcome of a run with the watch table replaced.\<close>

definition set_watches :: "(go_int \<rightharpoonup> watch) \<Rightarrow> outcome \<Rightarrow> outcome" where
  "set_watches w out =
     (case out of
        Returned q \<Rightarrow> Returned (q\<lparr>watches := w\<rparr>)
      | Blocked q \<Rightarrow> Blocked (q\<lparr>watches := w\<rparr>)
      | Panicked e \<Rightarrow> Panicked e)"

subsection \<open>The netlink listener\<close>

text \<open>
  The kernel as far as the listener sees it: the descriptors that are open and the
  datagrams accepted by \<open>Sendto\<close>. The results of the system calls are the
  environment's: \<open>Socket_result\<close>, \<open>Bind_result\<close>, \<open>Sendto_result\<close>, \<open>Getpid\<close>.
\<close>

record kernel =
  open_fds :: "go_int set"
  sent :: "(go_int \<times> byte list) list"

record syscalls =
  Socket_result :: "Errno + go_int"
  Bind_result :: "Errno option"
  Sendto_result :: "Errno option"
  Getpid :: go_int

text \<open>
  The message that \<open>send\<close> fills in, and the buffer it writes. \<open>Sendto\<close> is handed
  \<open>listener.addr\<close>, which \<open>bind\<close> sets before its first \<open>send\<close>; the model follows
  \<open>send\<close> on a bound listener only, where \<open>Sendto\<close> returns.
\<close>

definition send_pr :: "u32 \<Rightarrow> go_int \<Rightarrow> NetLinkMessage" where
  "send_pr seq' pid =
     (let pr = zero_NetLinkMessage;
          plen = Size_cnMsg + Size_uint32;
          pr = pr\<lparr>Header := (Header pr)\<lparr>nl_Len := of_nat NLMSG_HDRLEN + of_nat plen\<rparr>\<rparr>;
          pr = pr\<lparr>Header := (Header pr)\<lparr>nl_Type := NLMSG_DONE\<rparr>\<rparr>;
          pr = pr\<lparr>Header := (Header pr)\<lparr>nl_Flags := 0\<rparr>\<rparr>;
          pr = pr\<lparr>Header := (Header pr)\<lparr>nl_Seq := seq'\<rparr>\<rparr>;
          pr = pr\<lparr>Header := (Header pr)\<lparr>nl_Pid := ucast pid\<rparr>\<rparr>;
          pr = pr\<lparr>Data := (Data pr)\<lparr>Id := (Id (Data pr))\<lparr>Idx := CN_IDX_PROC\<rparr>\<rparr>\<rparr>;
          pr = pr\<lparr>Data := (Data pr)\<lparr>Id := (Id (Data pr))\<lparr>Val := CN_VAL_PROC\<rparr>\<rparr>\<rparr>;
          pr = pr\<lparr>Data := (Data pr)\<lparr>Len := of_nat Size_uint32\<rparr>\<rparr>
      in pr)"

definition send_buf :: "u32 \<Rightarrow> go_int \<Rightarrow> u32 \<Rightarrow> byte list" where
  "send_buf seq' pid op = encode_NetLinkMessage (send_pr seq' pid) @ PutUint32 op"

definition send :: "u32 \<Rightarrow> syscalls \<Rightarrow> kernel \<times> NetLink \<Rightarrow> Errno option \<times> kernel \<times> NetLink" where
  "send op sys = (\<lambda>(k, l).
     (let l = l\<lparr>seq := seq l + 1\<rparr>;
          buf = send_buf (seq l) (Getpid sys) op
      in case Sendto_result sys of
           Some err \<Rightarrow> (Some err, k, l)
         | None \<Rightarrow> (None, k\<lparr>sent := sent k @ [(sock l, buf)]\<rparr>, l)))"

definition bind :: "syscalls \<Rightarrow> kernel \<times> NetLink \<Rightarrow> Errno option \<times> kernel \<times> NetLink" where
  "bind sys = (\<lambda>(k, l).
     (case Socket_result sys of
        Inl err \<Rightarrow> (Some err, k, l)
      | Inr s \<Rightarrow>
          (let k = k\<lparr>open_fds := insert s (open_fds k)\<rparr>;
               l = l\<lparr>sock := s\<rparr>;
               l = l\<lparr>addr := Some \<lparr>Family = AF_NETLINK, Groups = CN_IDX_PROC\<rparr>\<rparr>
           in case Bind_result sys of
                Some err \<Rightarrow> (Some err, k, l)
              | None \<Rightarrow> send PROC_CN_MCAST_LISTEN sys (k, l))))"

definition close :: "syscalls \<Rightarrow> kernel \<times> NetLink \<Rightarrow> Errno option \<times> kernel \<times> NetLink" where
  "close sys = (\<lambda>(k, l).
     (case send PROC_CN_MCAST_IGNORE sys (k, l) of
        (err, k, l) \<Rightarrow> (err, k\<lparr>open_fds := open_fds k - {sock l}\<rparr>, l)))"

definition createListener :: "syscalls \<Rightarrow> kernel \<Rightarrow> Errno option \<times> kernel \<times> NetLink" where
  "createListener sys k = bind sys (k, \<lparr>addr = None, sock = 0, seq = 0\<rparr>)"

subsection \<open>Listen and Close\<close>

text \<open>
  \<open>new_PsEvent\<close> is the struct literal of \<open>Listen\<close>: open channels, nothing in
  \<open>done\<close>, and the fields it leaves out at their zero values (\<open>watches\<close> a nil map).
  \<open>Listen\<close> returns the engine its goroutine starts from; the goroutine's run is
  \<open>readEvents\<close> on that state. \<open>Close\<close> is the whole of the public stop operation.
\<close>

definition new_PsEvent :: "NetLink \<Rightarrow> PsEvent" where
  "new_PsEvent l =
     \<lparr>listener = l, watches = Map.empty,
      Error_closed = False, Fork_closed = False, Exec_closed = False, Exit_closed = False,
      delivered = [], done_chan = [], isClosed = False\<rparr>"

definition Listen :: "syscalls \<Rightarrow> kernel \<Rightarrow> (Errno + PsEvent) \<times> kernel" where
  "Listen sys k =
     (case createListener sys k of
        (Some err, k', l) \<Rightarrow> (Inl err, k')
      | (None, k', l) \<Rightarrow> (Inr (new_PsEvent l), k'))"

definition Close :: "syscalls \<Rightarrow> kernel \<times> PsEvent \<Rightarrow> Errno option \<times> kernel \<times> PsEvent" where
  "Close sys = (\<lambda>(k, p).
     (case close sys (k, listener p) of
        (err, k', l) \<Rightarrow> (err, k', p\<lparr>listener := l\<rparr>)))"

section \<open>Frames as the kernel builds them\<close>

text \<open>
  The sending side of the protocol, for statements about what the engine does with
  well-formed input. An envelope is a \<open>syscall.NlMsghdr\<close> whose length field counts the
  header and the payload, followed by the payload. A process event on the wire is an
  envelope of type \<open>NLMSG_DONE\<close> around a connector header, a process-event header whose
  \<open>What\<close> names the body, the body, and the rest of the kernel's \<open>proc_event\<close> union as
  padding. All layouts are those of the source's structs.
\<close>

definition envelope :: "NlMsghdr \<Rightarrow> byte list \<Rightarrow> byte list" where
  "envelope nh payload =
     encode_NlMsghdr (nh\<lparr>nl_Len := of_nat (NLMSG_HDRLEN + length payload)\<rparr>) @ payload"

definition envelope_msg :: "NlMsghdr \<Rightarrow> byte list \<Rightarrow> NetlinkMessage" where
  "envelope_msg nh payload =
     \<lparr>msg_Header = nh\<lparr>nl_Len := of_nat (NLMSG_HDRLEN + length payload)\<rparr>, msg_Data = payload\<rparr>"

datatype body = ForkBody forkProcEvent | ExecBody execProcEvent | ExitBody exitProcEvent

fun kind_of :: "body \<Rightarrow> u32" where
  "kind_of (ForkBody f) = PROC_EVENT_FORK"
| "kind_of (ExecBody e) = PROC_EVENT_EXEC"
| "kind_of (ExitBody x) = PROC_EVENT_EXIT"

fun encode_body :: "body \<Rightarrow> byte list" where
  "encode_body (ForkBody f) = encode_forkProcEvent f"
| "encode_body (ExecBody e) = encode_execProcEvent e"
| "encode_body (ExitBody x) = encode_exitProcEvent x"

record wire_event =
  ev_nl :: NlMsghdr
  ev_cn :: cnMsg
  ev_hdr :: procEventHeader
  ev_body :: body
  ev_pad :: "byte list"

definition payload_of :: "wire_event \<Rightarrow> byte list" where
  "payload_of w =
     encode_cnMsg (ev_cn w) @ encode_procEventHeader ((ev_hdr w)\<lparr>What := kind_of (ev_body w)\<rparr>) @
     encode_body (ev_body w) @ ev_pad w"


text \<open>The message that \<open>ParseNetlinkMessage\<close> extracts for an event.\<close>

definition msg_of :: "wire_event \<Rightarrow> NetlinkMessage" where
  "msg_of w = envelope_msg ((ev_nl w)\<lparr>nl_Type := NLMSG_DONE\<rparr>) (payload_of w)"


text \<open>The delivery the engine owes for an event: the queue of its kind, the thread-group ids.\<close>

fun expected :: "body \<Rightarrow> delivery" where
  "expected (ForkBody f) =
     OnFork \<lparr>Fork_ParentPid = ucast (ParentTgid f), Fork_ChildPid = ucast (ChildTgid f)\<rparr>"
| "expected (ExecBody e) = OnExec \<lparr>Exec_Pid = ucast (exec_ProcessTgid e)\<rparr>"
| "expected (ExitBody x) = OnExit \<lparr>Exit_Pid = ucast (exit_ProcessTgid x)\<rparr>"

text \<open>
  The results of \<open>Recvfrom\<close> that the loop reports as errors, and the error it reports:
  the transport's own, or \<open>EINVAL\<close> for a datagram shorter than an envelope header.
\<close>

fun recv_fails :: "recv \<Rightarrow> bool" where
  "recv_fails (RecvErr err) = True"
| "recv_fails (RecvOk frame) = (length frame < NLMSG_HDRLEN)"

fun recv_error :: "recv \<Rightarrow> Errno" where
  "recv_error (RecvErr err) = err"
| "recv_error (RecvOk frame) = EINVAL"

section \<open>Sample inputs\<close>

text \<open>
  Concrete inputs at which the statements below are instantiated. The system calls all
  succeed, \<open>Socket\<close> giving descriptor 3. \<open>sample_engine\<close> is the engine that \<open>Listen\<close>
  returns under them, its listener bound and its counter at 1 after the listen frame, and
  \<open>sample_kernel\<close> is the kernel \<open>Listen\<close> leaves: descriptor 3 open, the listen frame
  sent. Then one event of each kind; the exit event carries eight bytes of padding.
\<close>

definition sample_syscalls :: syscalls where
  "sample_syscalls =
     \<lparr>Socket_result = Inr 3, Bind_result = None, Sendto_result = None, Getpid = 42\<rparr>"

definition sample_listener :: NetLink where
  "sample_listener =
     \<lparr>addr = Some \<lparr>Family = AF_NETLINK, Groups = CN_IDX_PROC\<rparr>, sock = 3, seq = 1\<rparr>"

definition sample_engine :: PsEvent where
  "sample_engine = new_PsEvent sample_listener"

definition sample_kernel :: kernel where
  "sample_kernel =
     \<lparr>open_fds = {3}, sent = [(3, send_buf 1 42 PROC_CN_MCAST_LISTEN)]\<rparr>"

definition sample_exec :: wire_event where
  "sample_exec =
     \<lparr>ev_nl = zero_NlMsghdr, ev_cn = zero_cnMsg, ev_hdr = zero_procEventHeader,
      ev_body = ExecBody \<lparr>exec_ProcessPid = 56, exec_ProcessTgid = 55\<rparr>, ev_pad = []\<rparr>"


definition sample_fork :: wire_event where
  "sample_fork =
     \<lparr>ev_nl = zero_NlMsghdr, ev_cn = zero_cnMsg, ev_hdr = zero_procEventHeader,
      ev_body = ForkBody \<lparr>ParentPid = 7, ParentTgid = 100, ChildPid = 8, ChildTgid = 101\<rparr>,
      ev_pad = []\<rparr>"

section \<open>Facts about the codec\<close>

lemma Uint16_PutUint16: "Uint16 (PutUint16 v @ rest) = v"
  unfolding PutUint16_def
  by (simp, rule bit_word_eqI) (auto simp: bit_simps)

lemma Uint32_PutUint32: "Uint32 (PutUint32 v @ rest) = v"
proof -
  have "ucast (ucast v :: byte) OR push_bit 8 (ucast (ucast (drop_bit 8 v) :: byte)) OR
        push_bit 16 (ucast (ucast (drop_bit 16 v) :: byte)) OR
        push_bit 24 (ucast (ucast (drop_bit 24 v) :: byte)) = v" (is "?w = v")
  proof (rule bit_word_eqI)
    fix n :: nat
    assume "n < LENGTH(32)"
    then consider "n < 8" | "8 \<le> n" "n < 16" | "16 \<le> n" "n < 24" | "24 \<le> n" "n < 32"
      by fastforce
    then show "bit ?w n = bit v n"
      by cases (auto simp: bit_simps)
  qed
  then show ?thesis by (simp add: PutUint32_def)
qed

lemma Uint64_PutUint64: "Uint64 (PutUint64 v @ rest) = v"
proof -
  have "ucast (ucast v :: byte) OR push_bit 8 (ucast (ucast (drop_bit 8 v) :: byte)) OR
        push_bit 16 (ucast (ucast (drop_bit 16 v) :: byte)) OR
        push_bit 24 (ucast (ucast (drop_bit 24 v) :: byte)) OR
        push_bit 32 (ucast (ucast (drop_bit 32 v) :: byte)) OR
        push_bit 40 (ucast (ucast (drop_bit 40 v) :: byte)) OR
        push_bit 48 (ucast (ucast (drop_bit 48 v) :: byte)) OR
        push_bit 56 (ucast (ucast (drop_bit 56 v) :: byte)) = v" (is "?w = v")
  proof (rule bit_word_eqI)
    fix n :: nat
    assume "n < LENGTH(64)"
    then consider "n < 8" | "8 \<le> n" "n < 16" | "16 \<le> n" "n < 24" | "24 \<le> n" "n < 32"
      | "32 \<le> n" "n < 40" | "40 \<le> n" "n < 48" | "48 \<le> n" "n < 56" | "56 \<le> n" "n < 64"
      by fastforce
    then show "bit ?w n = bit v n"
      by cases (auto simp: bit_simps)
  qed
  then show ?thesis by (simp add: PutUint64_def)
qed

lemma Uint16_PutUint16_nil: "Uint16 (PutUint16 v) = v"
  using Uint16_PutUint16 [of v "[]"] by simp

lemma Uint32_PutUint32_nil: "Uint32 (PutUint32 v) = v"
  using Uint32_PutUint32 [of v "[]"] by simp

lemma Uint64_PutUint64_nil: "Uint64 (PutUint64 v) = v"
  using Uint64_PutUint64 [of v "[]"] by simp

lemma length_PutUint16: "length (PutUint16 v) = 2"
  by (simp add: PutUint16_def)

lemma length_PutUint32: "length (PutUint32 v) = 4"
  by (simp add: PutUint32_def)

lemma length_PutUint64: "length (PutUint64 v) = 8"
  by (simp add: PutUint64_def)

lemmas codec_simps =
  Uint16_PutUint16 Uint32_PutUint32 Uint64_PutUint64
  Uint16_PutUint16_nil Uint32_PutUint32_nil Uint64_PutUint64_nil
  length_PutUint16 length_PutUint32 length_PutUint64

lemma length_encode_cnMsg: "length (encode_cnMsg m) = 20"
  by (simp add: encode_cnMsg_def codec_simps)

lemma length_encode_procEventHeader: "length (encode_procEventHeader h) = 16"
  by (simp add: encode_procEventHeader_def codec_simps)

lemma length_encode_forkProcEvent: "length (encode_forkProcEvent e) = 16"
  by (simp add: encode_forkProcEvent_def codec_simps)

lemma length_encode_execProcEvent: "length (encode_execProcEvent e) = 8"
  by (simp add: encode_execProcEvent_def codec_simps)

lemma length_encode_exitProcEvent: "length (encode_exitProcEvent e) = 16"
  by (simp add: encode_exitProcEvent_def codec_simps)

lemma length_encode_NlMsghdr: "length (encode_NlMsghdr h) = 16"
  by (simp add: encode_NlMsghdr_def codec_simps)

lemma decode_encode_cnMsg: "decode_cnMsg (encode_cnMsg m @ rest) = m"
  by (simp add: decode_cnMsg_def encode_cnMsg_def codec_simps)

lemma decode_encode_procEventHeader:
  "decode_procEventHeader (encode_procEventHeader h @ rest) = h"
  by (simp add: decode_procEventHeader_def encode_procEventHeader_def codec_simps)

lemma decode_encode_forkProcEvent: "decode_forkProcEvent (encode_forkProcEvent e @ rest) = e"
  by (simp add: decode_forkProcEvent_def encode_forkProcEvent_def codec_simps)

lemma decode_encode_execProcEvent: "decode_execProcEvent (encode_execProcEvent e @ rest) = e"
  by (simp add: decode_execProcEvent_def encode_execProcEvent_def codec_simps)

lemma decode_encode_exitProcEvent: "decode_exitProcEvent (encode_exitProcEvent e @ rest) = e"
  by (simp add: decode_exitProcEvent_def encode_exitProcEvent_def codec_simps)

lemma decode_encode_NlMsghdr: "decode_NlMsghdr (encode_NlMsghdr h @ rest) = h"
  by (simp add: decode_NlMsghdr_def encode_NlMsghdr_def codec_simps)

lemma decode_encode_cnMsg_nil: "decode_cnMsg (encode_cnMsg m) = m"
  using decode_encode_cnMsg [of m "[]"] by simp

section \<open>Facts about the control frame\<close>

lemma send_eq:
  "send op sys (k, l) =
     (Sendto_result sys,
      (case Sendto_result sys of
         None \<Rightarrow> k\<lparr>sent := sent k @ [(sock l, send_buf (seq l + 1) (Getpid sys) op)]\<rparr>
       | Some err \<Rightarrow> k),
      l\<lparr>seq := seq l + 1\<rparr>)"
  by (simp add: send_def Let_def split: option.splits)

lemma send_pr_eq:
  "send_pr s pid =
     \<lparr>Header = \<lparr>nl_Len = 40, nl_Type = NLMSG_DONE, nl_Flags = 0, nl_Seq = s, nl_Pid = ucast pid\<rparr>,
      Data = \<lparr>Id = \<lparr>Idx = CN_IDX_PROC, Val = CN_VAL_PROC\<rparr>, Seq = 0, Ack = 0, Len = 4, Flags = 0\<rparr>\<rparr>"
  by (simp add: send_pr_def Let_def zero_NetLinkMessage_def zero_NlMsghdr_def zero_cnMsg_def
      NLMSG_HDRLEN_def Size_cnMsg_def Size_uint32_def)

lemma send_buf_eq:
  "send_buf s pid op =
     encode_NlMsghdr (Header (send_pr s pid)) @ encode_cnMsg (Data (send_pr s pid)) @ PutUint32 op"
  by (simp add: send_buf_def encode_NetLinkMessage_def)

lemma length_send_buf: "length (send_buf s pid op) = 40"
  by (simp add: send_buf_eq length_encode_NlMsghdr length_encode_cnMsg length_PutUint32)

lemma nlmAlignOf_40: "nlmAlignOf 40 = 40"
  by (simp add: nlmAlignOf_div)

lemma Parse_send_buf:
  "ParseNetlinkMessage (send_buf s pid op) =
     Inr [\<lparr>msg_Header = Header (send_pr s pid),
           msg_Data = encode_cnMsg (Data (send_pr s pid)) @ PutUint32 op\<rparr>]"
proof -
  let ?h = "Header (send_pr s pid)"
  let ?d = "encode_cnMsg (Data (send_pr s pid)) @ PutUint32 op"
  have len: "nl_Len ?h = 40" by (simp add: send_pr_eq)
  have hd: "netlinkMessageHeaderAndData (send_buf s pid op) = Inr (?h, ?d, 40)"
    unfolding netlinkMessageHeaderAndData_def send_buf_eq
    by (simp add: decode_encode_NlMsghdr len nlmAlignOf_40 Let_def NLMSG_HDRLEN_def
        length_encode_NlMsghdr length_encode_cnMsg length_PutUint32)
  have "ParseNetlinkMessage_loop (send_buf s pid op) [] =
        ParseNetlinkMessage_loop (drop 40 (send_buf s pid op))
          [\<lparr>msg_Header = ?h, msg_Data = take 24 ?d\<rparr>]"
    by (subst ParseNetlinkMessage_loop.simps)
       (simp add: hd len length_send_buf NLMSG_HDRLEN_def del: ParseNetlinkMessage_loop.simps)
  also have "\<dots> = Inr [\<lparr>msg_Header = ?h, msg_Data = take 24 ?d\<rparr>]"
    by (subst ParseNetlinkMessage_loop.simps) (simp add: length_send_buf NLMSG_HDRLEN_def)
  finally show ?thesis
    by (simp add: ParseNetlinkMessage_def length_encode_cnMsg length_PutUint32)
qed

section \<open>Facts about handleEvent\<close>

lemma read_into_short:
  "length buf < n \<Longrightarrow> read_into z n decode buf = (z, [])"
  by (simp add: read_into_def binary_Read_def)

lemma read_into_full:
  "n \<le> length buf \<Longrightarrow> read_into z n decode buf = (decode (take n buf), drop n buf)"
  by (simp add: read_into_def binary_Read_def)

lemma read_cnMsg:
  "read_into z Size_cnMsg decode_cnMsg (encode_cnMsg m @ rest) = (m, rest)"
  by (simp add: read_into_full Size_cnMsg_def length_encode_cnMsg decode_encode_cnMsg_nil)

lemma read_procEventHeader:
  "read_into z Size_procEventHeader decode_procEventHeader (encode_procEventHeader h @ rest) =
     (h, rest)"
  using decode_encode_procEventHeader [of h "[]"]
  by (simp add: read_into_full Size_procEventHeader_def length_encode_procEventHeader)

lemma read_forkProcEvent:
  "read_into z Size_forkProcEvent decode_forkProcEvent (encode_forkProcEvent e @ rest) =
     (e, rest)"
  using decode_encode_forkProcEvent [of e "[]"]
  by (simp add: read_into_full Size_forkProcEvent_def length_encode_forkProcEvent)

lemma read_execProcEvent:
  "read_into z Size_execProcEvent decode_execProcEvent (encode_execProcEvent e @ rest) =
     (e, rest)"
  using decode_encode_execProcEvent [of e "[]"]
  by (simp add: read_into_full Size_execProcEvent_def length_encode_execProcEvent)

lemma read_exitProcEvent:
  "read_into z Size_exitProcEvent decode_exitProcEvent (encode_exitProcEvent e @ rest) =
     (e, rest)"
  using decode_encode_exitProcEvent [of e "[]"]
  by (simp add: read_into_full Size_exitProcEvent_def length_encode_exitProcEvent)

lemmas read_simps =
  read_cnMsg read_procEventHeader read_forkProcEvent read_execProcEvent read_exitProcEvent

lemma kinds_distinct:
  "PROC_EVENT_FORK \<noteq> PROC_EVENT_EXEC" "PROC_EVENT_FORK \<noteq> PROC_EVENT_EXIT"
  "PROC_EVENT_EXEC \<noteq> PROC_EVENT_EXIT" "PROC_EVENT_EXEC \<noteq> PROC_EVENT_FORK" 
  "PROC_EVENT_EXIT \<noteq> PROC_EVENT_FORK" "PROC_EVENT_EXIT \<noteq> PROC_EVENT_EXEC"
  by (simp_all add: PROC_EVENT_FORK_def PROC_EVENT_EXEC_def PROC_EVENT_EXIT_def)

text \<open>handleEvent on a payload whose two headers are complete.\<close>

lemma handleEvent_headers:
  "handleEvent (encode_cnMsg m @ encode_procEventHeader h @ body) p =
     (if What h = PROC_EVENT_FORK then
        send_Fork \<lparr>Fork_ParentPid = ucast (ParentTgid (fst (read_into zero_forkProcEvent
                       Size_forkProcEvent decode_forkProcEvent body))),
                   Fork_ChildPid = ucast (ChildTgid (fst (read_into zero_forkProcEvent
                       Size_forkProcEvent decode_forkProcEvent body)))\<rparr> p
      else if What h = PROC_EVENT_EXEC then
        send_Exec \<lparr>Exec_Pid = ucast (exec_ProcessTgid (fst (read_into zero_execProcEvent
                       Size_execProcEvent decode_execProcEvent body)))\<rparr> p
      else if What h = PROC_EVENT_EXIT then
        send_Exit \<lparr>Exit_Pid = ucast (exit_ProcessTgid (fst (read_into zero_exitProcEvent
                       Size_exitProcEvent decode_exitProcEvent body)))\<rparr> p
      else Inr p)"
  by (simp add: handleEvent_def Let_def read_cnMsg read_procEventHeader split_beta)

lemma sint_ucast_32_64: "sint (ucast (w :: u32) :: go_int) = uint w"
proof -
  have "uint w < 2 ^ 32" using uint_lt2p [of w] by simp
  then have "uint w < 2 ^ 63" by simp
  moreover have "- (2 ^ 63) \<le> uint w"
    by (rule order_trans [of _ 0]) simp_all
  ultimately have "signed_take_bit 63 (uint w) = uint w"
    by (simp add: signed_take_bit_int_eq_self)
  then show ?thesis by (simp add: signed_ucast_eq)
qed

lemma ucast_32_64_inj: "(ucast (a :: u32) :: go_int) = ucast b \<Longrightarrow> a = b"
  by (metis sint_ucast_32_64 word_uint_eqI)

lemma handleEvent_short:
  assumes "length data < Size_cnMsg + Size_procEventHeader"
  shows "handleEvent data p = Inr p"
proof (cases "length data < Size_cnMsg")
  case True
  then show ?thesis
    by (simp add: handleEvent_def read_into_short Size_procEventHeader_def
        zero_procEventHeader_def PROC_EVENT_FORK_def PROC_EVENT_EXEC_def PROC_EVENT_EXIT_def)
next
  case False
  then have a: "Size_cnMsg \<le> length data" by simp
  from assms a have b: "length (drop Size_cnMsg data) < Size_procEventHeader" by simp
  show ?thesis
    by (simp add: handleEvent_def read_into_full [OF a] read_into_short [OF b]
        zero_procEventHeader_def PROC_EVENT_FORK_def PROC_EVENT_EXEC_def PROC_EVENT_EXIT_def)
qed

lemma handleEvent_cases:
  "handleEvent data p = Inr p \<or>
   (\<exists>ev. handleEvent data p = send_Fork ev p) \<or>
   (\<exists>ev. handleEvent data p = send_Exec ev p) \<or>
   (\<exists>ev. handleEvent data p = send_Exit ev p)"
  unfolding handleEvent_def Let_def split_beta by auto

lemma handleEvent_open:
  assumes "\<not> Fork_closed p" and "\<not> Exec_closed p" and "\<not> Exit_closed p"
  shows "\<exists>ds. handleEvent data p = Inr (p\<lparr>delivered := delivered p @ ds\<rparr>) \<and>
              length ds \<le> 1 \<and> filter is_error ds = [] \<and>
              (length data < Size_cnMsg + Size_procEventHeader \<longrightarrow> ds = [])"
proof (cases "length data < Size_cnMsg + Size_procEventHeader")
  case True
  then have "handleEvent data p = Inr (p\<lparr>delivered := delivered p @ []\<rparr>)"
    by (simp add: handleEvent_short)
  then show ?thesis by (intro exI [of _ "[]"]) simp
next
  case False
  consider "handleEvent data p = Inr p"
    | ev where "handleEvent data p = send_Fork ev p"
    | ev where "handleEvent data p = send_Exec ev p"
    | ev where "handleEvent data p = send_Exit ev p"
    using handleEvent_cases [of data p] by blast
  then show ?thesis
  proof cases
    case 1
    then have "handleEvent data p = Inr (p\<lparr>delivered := delivered p @ []\<rparr>)" by simp
    with False show ?thesis by (intro exI [of _ "[]"]) simp
  next
    case 2
    with assms False show ?thesis
      by (intro exI [of _ "[OnFork ev]"]) (simp add: send_Fork_def is_error_def)
  next
    case 3
    with assms False show ?thesis
      by (intro exI [of _ "[OnExec ev]"]) (simp add: send_Exec_def is_error_def)
  next
    case 4
    with assms False show ?thesis
      by (intro exI [of _ "[OnExit ev]"]) (simp add: send_Exit_def is_error_def)
  qed
qed

lemma handleEvent_watches:
  "handleEvent data (p\<lparr>watches := w\<rparr>) = map_sum id (\<lambda>q. q\<lparr>watches := w\<rparr>) (handleEvent data p)"
  unfolding handleEvent_def Let_def split_beta
  by (simp add: send_Fork_def send_Exec_def send_Exit_def)

lemma handle_msgs_watches:
  "handle_msgs ms (p\<lparr>watches := w\<rparr>) = map_sum id (\<lambda>q. q\<lparr>watches := w\<rparr>) (handle_msgs ms p)"
proof (induction ms arbitrary: p)
  case Nil
  show ?case by simp
next
  case (Cons m ms)
  show ?case
  proof (cases "handleEvent (msg_Data m) p")
    case (Inl e)
    then show ?thesis by (simp add: handleEvent_watches Cons.IH)
  next
    case (Inr q)
    then show ?thesis by (simp add: handleEvent_watches Cons.IH)
  qed
qed

lemma on_recv_watches:
  "on_recv r (p\<lparr>watches := w\<rparr>) = map_sum id (\<lambda>q. q\<lparr>watches := w\<rparr>) (on_recv r p)"
  by (cases r) (simp_all add: on_recv_def send_Error_def handle_msgs_watches Let_def)

section \<open>Facts about frames\<close>

lemma nlmAlignOf_aligned: "4 dvd n \<Longrightarrow> nlmAlignOf n = n"
  unfolding nlmAlignOf_div by presburger

lemma length_envelope: "length (envelope nh payload) = 16 + length payload"
  by (simp add: envelope_def length_encode_NlMsghdr)

lemma Parse_step:
  assumes small: "length payload < 2 ^ 31" and al: "4 dvd length payload"
  shows "ParseNetlinkMessage_loop (envelope nh payload @ rest) msgs =
         ParseNetlinkMessage_loop rest (msgs @ [envelope_msg nh payload])"
proof -
  let ?h = "nh\<lparr>nl_Len := of_nat (NLMSG_HDRLEN + length payload)\<rparr>"
  let ?b = "envelope nh payload @ rest"
  have u: "uint (nl_Len ?h) = 16 + int (length payload)"
  proof -
    have lt: "16 + length payload < 2 ^ 32" using small by simp
    have "unat (of_nat (16 + length payload) :: u32) = (16 + length payload) mod 2 ^ LENGTH(32)"
      by (rule unat_of_nat)
    also have "\<dots> = 16 + length payload" using lt by simp
    finally have "unat (of_nat (16 + length payload) :: u32) = 16 + length payload" .
    then have "uint (of_nat (16 + length payload) :: u32) = int (16 + length payload)"
      by (metis uint_nat)
    then show ?thesis by (simp add: NLMSG_HDRLEN_def)
  qed
  have "4 dvd (16 + int (length payload))" using al by presburger
  then have a: "nlmAlignOf (16 + int (length payload)) = 16 + int (length payload)"
    by (rule nlmAlignOf_aligned)
  have d: "decode_NlMsghdr ?b = ?h"
    by (simp add: envelope_def decode_encode_NlMsghdr)
  have hd: "netlinkMessageHeaderAndData ?b = Inr (?h, payload @ rest, 16 + int (length payload))"
    unfolding netlinkMessageHeaderAndData_def d Let_def u a
    by (simp add: NLMSG_HDRLEN_def length_envelope)
       (simp add: envelope_def length_encode_NlMsghdr)
  have len: "NLMSG_HDRLEN \<le> length ?b"
    by (simp add: NLMSG_HDRLEN_def length_envelope)
  have dr: "drop (nat (16 + int (length payload))) ?b = rest"
    by (simp add: length_envelope nat_add_distrib)
  have tk: "take (nat (uint (nl_Len ?h) - int NLMSG_HDRLEN)) (payload @ rest) = payload"
    unfolding u by (simp add: NLMSG_HDRLEN_def)
  show ?thesis
    by (subst ParseNetlinkMessage_loop.simps)
       (simp only: len hd dr tk if_True sum.case prod.case envelope_msg_def)
qed

section \<open>Facts about the loop\<close>

lemma isDone_empty: "done_chan p = [] \<Longrightarrow> isDone p = Inr (False, p)"
  by (simp add: isDone_def)

lemma readEvents_step:
  "done_chan p = [] \<Longrightarrow> on_recv r p = Inr q \<Longrightarrow> readEvents (r # rs) p = readEvents rs q"
  by (simp add: isDone_empty)

lemma readEvents_blocked: "done_chan p = [] \<Longrightarrow> readEvents [] p = Blocked p"
  by (simp add: isDone_empty)

lemma on_recv_fails:
  "recv_fails r \<Longrightarrow> \<not> Error_closed p \<Longrightarrow>
   on_recv r p = Inr (p\<lparr>delivered := delivered p @ [OnError (recv_error r)]\<rparr>)"
  by (cases r) (simp_all add: on_recv_def send_Error_def)

lemma readEvents_failures:
  assumes "done_chan p = []" and "\<not> Error_closed p" and "\<forall>r\<in>set fs. recv_fails r"
  shows "readEvents (fs @ rs) p =
         readEvents rs (p\<lparr>delivered := delivered p @ map (\<lambda>r. OnError (recv_error r)) fs\<rparr>)"
  using assms
proof (induction fs arbitrary: p)
  case Nil
  then show ?case by simp
next
  case (Cons f fs)
  let ?q = "p\<lparr>delivered := delivered p @ [OnError (recv_error f)]\<rparr>"
  from Cons.prems have s: "on_recv f p = Inr ?q" by (simp add: on_recv_fails)
  from Cons.prems have "readEvents ((f # fs) @ rs) p = readEvents (fs @ rs) ?q"
    using readEvents_step [OF _ s] by simp
  also have "\<dots> = readEvents rs
      (?q\<lparr>delivered := delivered ?q @ map (\<lambda>r. OnError (recv_error r)) fs\<rparr>)"
    using Cons.prems by (intro Cons.IH) simp_all
  finally show ?case by simp
qed

lemma handleEvent_payload:
  assumes "\<not> Fork_closed p" and "\<not> Exec_closed p" and "\<not> Exit_closed p"
  shows "handleEvent (payload_of w) p = Inr (p\<lparr>delivered := delivered p @ [expected (ev_body w)]\<rparr>)"
proof (cases "ev_body w")
  case (ForkBody f)
  with assms show ?thesis
    by (simp add: payload_of_def handleEvent_headers read_forkProcEvent send_Fork_def)
next
  case (ExecBody e)
  with assms show ?thesis
    by (simp add: payload_of_def handleEvent_headers read_execProcEvent send_Exec_def
        kinds_distinct)
next
  case (ExitBody x)
  with assms show ?thesis
    by (simp add: payload_of_def handleEvent_headers read_exitProcEvent send_Exit_def
        kinds_distinct)
qed


lemma handle_msgs_frame:
  assumes "\<not> Fork_closed p" and "\<not> Exec_closed p" and "\<not> Exit_closed p"
  shows "handle_msgs (map msg_of evs) p =
         Inr (p\<lparr>delivered := delivered p @ map (\<lambda>w. expected (ev_body w)) evs\<rparr>)"
  using assms
proof (induction evs arbitrary: p)
  case Nil
  show ?case by simp
next
  case (Cons w evs)
  let ?q = "p\<lparr>delivered := delivered p @ [expected (ev_body w)]\<rparr>"
  have h: "handleEvent (payload_of w) p = Inr ?q"
    using Cons.prems by (rule handleEvent_payload)
  have "handle_msgs (map msg_of (w # evs)) p = handle_msgs (map msg_of evs) ?q"
    by (simp add: msg_of_def envelope_msg_def h)
  also have "\<dots> = Inr (?q\<lparr>delivered := delivered ?q @ map (\<lambda>w. expected (ev_body w)) evs\<rparr>)"
    using Cons.prems by (intro Cons.IH) simp_all
  finally show ?case by simp
qed



lemma isDone_watches:
  "isDone (p\<lparr>watches := w\<rparr>) =
     map_sum id (\<lambda>(d, q). (d, q\<lparr>watches := w\<rparr>)) (isDone p)"
  by (simp add: isDone_def finish_def split: list.splits)

lemma readEvents_watches:
  "readEvents rs (p\<lparr>watches := w\<rparr>) = set_watches w (readEvents rs p)"
proof (induction rs arbitrary: p)
  case Nil
  show ?case
    by (cases "isDone p") (auto simp: isDone_watches set_watches_def split: bool.splits)
next
  case (Cons r rs)
  show ?case
  proof (cases "isDone p")
    case (Inl e)
    then show ?thesis by (simp add: isDone_watches set_watches_def)
  next
    case (Inr dq)
    obtain d q where dq: "dq = (d, q)" by (cases dq)
    show ?thesis
    proof (cases d)
      case True
      with Inr dq show ?thesis by (simp add: isDone_watches set_watches_def)
    next
      case False
      with Inr dq show ?thesis
        by (cases "on_recv r q")
           (simp_all add: isDone_watches on_recv_watches Cons.IH set_watches_def)
    qed
  qed
qed

lemma handle_msgs_open:
  assumes "\<not> Fork_closed p" and "\<not> Exec_closed p" and "\<not> Exit_closed p"
  shows "\<exists>ds. handle_msgs ms p = Inr (p\<lparr>delivered := delivered p @ ds\<rparr>)"
  using assms
proof (induction ms arbitrary: p)
  case Nil
  have "handle_msgs [] p = Inr (p\<lparr>delivered := delivered p @ []\<rparr>)" by simp
  then show ?case by blast
next
  case (Cons m ms)
  show ?case
  proof (cases "nl_Type (msg_Header m) = NLMSG_DONE")
    case False
    with Cons.IH [OF Cons.prems] show ?thesis by simp
  next
    case True
    from handleEvent_open [OF Cons.prems, of "msg_Data m"]
    obtain ds where ds: "handleEvent (msg_Data m) p = Inr (p\<lparr>delivered := delivered p @ ds\<rparr>)"
      by blast
    let ?q = "p\<lparr>delivered := delivered p @ ds\<rparr>"
    have "\<exists>es. handle_msgs ms ?q = Inr (?q\<lparr>delivered := delivered ?q @ es\<rparr>)"
      using Cons.prems by (intro Cons.IH) simp_all
    then obtain es where "handle_msgs ms ?q = Inr (?q\<lparr>delivered := delivered ?q @ es\<rparr>)"
      by blast
    with True ds have "handle_msgs (m # ms) p = Inr (p\<lparr>delivered := delivered p @ (ds @ es)\<rparr>)"
      by simp
    then show ?thesis by blast
  qed
qed

lemma on_recv_open:
  assumes "\<not> Fork_closed p" and "\<not> Exec_closed p" and "\<not> Exit_closed p"
    and "\<not> Error_closed p"
  shows "\<exists>ds. on_recv r p = Inr (p\<lparr>delivered := delivered p @ ds\<rparr>)"
proof (cases "recv_fails r")
  case True
  with assms(4) show ?thesis using on_recv_fails by blast
next
  case False
  then obtain frame where r: "r = RecvOk frame" and l: "\<not> length frame < NLMSG_HDRLEN"
    by (cases r) simp_all
  from handle_msgs_open [OF assms(1,2,3)] r l show ?thesis
    by (simp add: on_recv_def)
qed

lemma readEvents_running:
  assumes "done_chan p = []"
    and "\<not> Fork_closed p" and "\<not> Exec_closed p" and "\<not> Exit_closed p"
    and "\<not> Error_closed p"
  shows "\<exists>ds. readEvents rs p = Blocked (p\<lparr>delivered := delivered p @ ds\<rparr>)"
  using assms
proof (induction rs arbitrary: p)
  case Nil
  then have "readEvents [] p = Blocked (p\<lparr>delivered := delivered p @ []\<rparr>)"
    by (simp add: isDone_empty)
  then show ?case by blast
next
  case (Cons r rs)
  from on_recv_open [OF Cons.prems(2-5), of r]
  obtain ds where ds: "on_recv r p = Inr (p\<lparr>delivered := delivered p @ ds\<rparr>)" by blast
  let ?q = "p\<lparr>delivered := delivered p @ ds\<rparr>"
  have "\<exists>es. readEvents rs ?q = Blocked (?q\<lparr>delivered := delivered ?q @ es\<rparr>)"
    using Cons.prems by (intro Cons.IH) simp_all
  then obtain es where "readEvents rs ?q = Blocked (?q\<lparr>delivered := delivered ?q @ es\<rparr>)"
    by blast
  with ds Cons.prems(1)
  have "readEvents (r # rs) p = Blocked (p\<lparr>delivered := delivered p @ (ds @ es)\<rparr>)"
    by (simp add: isDone_empty)
  then show ?case by blast
qed

lemma Close_eq:
  "Close sys (k, p) =
     (Sendto_result sys,
      (case Sendto_result sys of
         None \<Rightarrow> k\<lparr>sent := sent k @ [(sock (listener p),
                   send_buf (seq (listener p) + 1) (Getpid sys) PROC_CN_MCAST_IGNORE)]\<rparr>
       | Some err \<Rightarrow> k)\<lparr>open_fds := open_fds k - {sock (listener p)}\<rparr>,
      p\<lparr>listener := (listener p)\<lparr>seq := seq (listener p) + 1\<rparr>\<rparr>)"
  by (simp add: Close_def close_def send_eq split: option.splits)

lemma Listen_sample:
  "Listen sample_syscalls \<lparr>open_fds = {}, sent = []\<rparr> = (Inr sample_engine, sample_kernel)"
  by (simp add: Listen_def createListener_def bind_def send_eq Let_def sample_syscalls_def
      sample_engine_def sample_listener_def sample_kernel_def)

section \<open>Outbound control frames\<close>

text \<open>
  C10. \<open>send\<close> increments the listener's counter and hands \<open>Sendto\<close> the buffer
  \<open>send_buf\<close> of the new counter value. In that buffer the counter is the envelope
  header's sequence field and nothing else: the connector header's \<open>Seq\<close> and \<open>Ack\<close>
  are zero, and two buffers for different counter values agree on every byte outside
  bytes 8 to 11, which hold the counter. The envelope's length field is the number of
  bytes in the buffer: envelope header, connector header and the four bytes of the
  operation code.
\<close>

theorem send_frame_layout:
  "fst (snd (send op (sys\<lparr>Sendto_result := None\<rparr>) (k, l))) =
     k\<lparr>sent := sent k @ [(sock l, send_buf (seq l + 1) (Getpid sys) op)]\<rparr> \<and>
   seq (snd (snd (send op sys (k, l)))) = seq l + 1 \<and>
   nl_Seq (decode_NlMsghdr (send_buf s pid op)) = s \<and>
   Seq (decode_cnMsg (drop NLMSG_HDRLEN (send_buf s pid op))) = 0 \<and>
   Ack (decode_cnMsg (drop NLMSG_HDRLEN (send_buf s pid op))) = 0 \<and>
   take 8 (send_buf s pid op) = take 8 (send_buf s' pid op) \<and>
   take 4 (drop 8 (send_buf s pid op)) = PutUint32 s \<and>
   drop 12 (send_buf s pid op) = drop 12 (send_buf s' pid op) \<and>
   unat (nl_Len (decode_NlMsghdr (send_buf s pid op))) = length (send_buf s pid op) \<and>
   length (send_buf s pid op) = NLMSG_HDRLEN + Size_cnMsg + 4"
proof -
  have a: "decode_NlMsghdr (send_buf s pid op) = Header (send_pr s pid)"
    by (simp add: send_buf_eq decode_encode_NlMsghdr)
  have b: "decode_cnMsg (drop NLMSG_HDRLEN (send_buf s pid op)) = Data (send_pr s pid)"
    by (simp add: send_buf_eq NLMSG_HDRLEN_def length_encode_NlMsghdr decode_encode_cnMsg)
  have c: "take 8 (send_buf s pid op) = take 8 (send_buf s' pid op)"
    by (simp add: send_buf_eq send_pr_eq encode_NlMsghdr_def length_PutUint32 length_PutUint16)
  have d: "take 4 (drop 8 (send_buf s pid op)) = PutUint32 s"
    by (simp add: send_buf_eq send_pr_eq encode_NlMsghdr_def length_PutUint32 length_PutUint16)
  have e: "drop 12 (send_buf s pid op) = drop 12 (send_buf s' pid op)"
    by (simp add: send_buf_eq send_pr_eq encode_NlMsghdr_def length_PutUint32 length_PutUint16)
  show ?thesis
    by (simp add: send_eq a b c d e length_send_buf)
       (simp add: send_pr_eq NLMSG_HDRLEN_def Size_cnMsg_def)
qed

text \<open>
  C5. Splitting the buffer that \<open>send\<close> writes with \<open>ParseNetlinkMessage\<close> gives one
  envelope whose header carries the sequence number; reading the connector header from
  its payload as \<open>handleEvent\<close> does gives the channel identifiers (1, 1), and the four
  bytes that remain decode to the operation code. This holds for every 32-bit operation
  code, \<open>PROC_CN_MCAST_LISTEN\<close> and \<open>PROC_CN_MCAST_IGNORE\<close> among them.
\<close>

theorem control_frame_roundtrip:
  "\<exists>h data m rest.
     ParseNetlinkMessage (send_buf s pid op) = Inr [\<lparr>msg_Header = h, msg_Data = data\<rparr>] \<and>
     nl_Seq h = s \<and>
     binary_Read Size_cnMsg decode_cnMsg data = (Some m, rest) \<and>
     Idx (Id m) = CN_IDX_PROC \<and> Val (Id m) = CN_VAL_PROC \<and> CN_IDX_PROC = 1 \<and> CN_VAL_PROC = 1 \<and>
     binary_Read Size_uint32 Uint32 rest = (Some op, [])"
proof -
  let ?h = "Header (send_pr s pid)"
  let ?m = "Data (send_pr s pid)"
  have 1: "ParseNetlinkMessage (send_buf s pid op) =
        Inr [\<lparr>msg_Header = ?h, msg_Data = encode_cnMsg ?m @ PutUint32 op\<rparr>]"
    by (rule Parse_send_buf)
  have 2: "nl_Seq ?h = s" by (simp add: send_pr_eq)
  have 3: "binary_Read Size_cnMsg decode_cnMsg (encode_cnMsg ?m @ PutUint32 op) =
        (Some ?m, PutUint32 op)"
    by (simp add: binary_Read_def Size_cnMsg_def length_encode_cnMsg decode_encode_cnMsg_nil)
  have 4: "Idx (Id ?m) = CN_IDX_PROC" "Val (Id ?m) = CN_VAL_PROC"
    by (simp_all add: send_pr_eq)
  have 5: "binary_Read Size_uint32 Uint32 (PutUint32 op) = (Some op, [])"
    by (simp add: binary_Read_def Size_uint32_def length_PutUint32 Uint32_PutUint32_nil)
  from 1 2 3 4 5 show ?thesis
    by (simp add: CN_IDX_PROC_def CN_VAL_PROC_def)
qed

section \<open>Decoding and dispatch\<close>

text \<open>
  The kernel's side of the protocol is the layout of the source's structs: a payload is a
  connector header, a process-event header and a body, possibly followed by further bytes
  (the kernel sends the whole \<open>proc_event\<close> union).
\<close>

text \<open>
  C4. With the queues open, a payload with a fork, exec or exit body puts on the matching
  queue an event whose pid fields are the zero-extended thread-group id fields of the
  body (\<open>ParentTgid\<close> and \<open>ChildTgid\<close>; \<open>ProcessTgid\<close>), whatever the process-id fields
  hold. As a Go \<open>int\<close> the reported value is the thread-group id's number, and it differs
  from the process id whenever the two fields differ.
\<close>

theorem reported_pids_are_tgids:
  assumes "\<not> Fork_closed p" and "\<not> Exec_closed p" and "\<not> Exit_closed p"
  shows
    "handleEvent (encode_cnMsg m @ encode_procEventHeader (h\<lparr>What := PROC_EVENT_FORK\<rparr>) @
                  encode_forkProcEvent f @ pad) p =
       Inr (p\<lparr>delivered := delivered p @
              [OnFork \<lparr>Fork_ParentPid = ucast (ParentTgid f),
                       Fork_ChildPid = ucast (ChildTgid f)\<rparr>]\<rparr>) \<and>
     handleEvent (encode_cnMsg m @ encode_procEventHeader (h\<lparr>What := PROC_EVENT_EXEC\<rparr>) @
                  encode_execProcEvent e @ pad) p =
       Inr (p\<lparr>delivered := delivered p @ [OnExec \<lparr>Exec_Pid = ucast (exec_ProcessTgid e)\<rparr>]\<rparr>) \<and>
     handleEvent (encode_cnMsg m @ encode_procEventHeader (h\<lparr>What := PROC_EVENT_EXIT\<rparr>) @
                  encode_exitProcEvent x @ pad) p =
       Inr (p\<lparr>delivered := delivered p @ [OnExit \<lparr>Exit_Pid = ucast (exit_ProcessTgid x)\<rparr>]\<rparr>) \<and>
     sint (ucast (ParentTgid f) :: go_int) = uint (ParentTgid f) \<and>
     sint (ucast (ChildTgid f) :: go_int) = uint (ChildTgid f) \<and>
     sint (ucast (exec_ProcessTgid e) :: go_int) = uint (exec_ProcessTgid e) \<and>
     sint (ucast (exit_ProcessTgid x) :: go_int) = uint (exit_ProcessTgid x) \<and>
     (ParentTgid f \<noteq> ParentPid f \<longrightarrow> (ucast (ParentTgid f) :: go_int) \<noteq> ucast (ParentPid f)) \<and>
     (ChildTgid f \<noteq> ChildPid f \<longrightarrow> (ucast (ChildTgid f) :: go_int) \<noteq> ucast (ChildPid f)) \<and>
     (exec_ProcessTgid e \<noteq> exec_ProcessPid e \<longrightarrow>
        (ucast (exec_ProcessTgid e) :: go_int) \<noteq> ucast (exec_ProcessPid e)) \<and>
     (exit_ProcessTgid x \<noteq> exit_ProcessPid x \<longrightarrow>
        (ucast (exit_ProcessTgid x) :: go_int) \<noteq> ucast (exit_ProcessPid x))"
proof -
  have fork: "handleEvent (encode_cnMsg m @ encode_procEventHeader (h\<lparr>What := PROC_EVENT_FORK\<rparr>) @
                  encode_forkProcEvent f @ pad) p =
       Inr (p\<lparr>delivered := delivered p @
              [OnFork \<lparr>Fork_ParentPid = ucast (ParentTgid f),
                       Fork_ChildPid = ucast (ChildTgid f)\<rparr>]\<rparr>)"
    using assms(1) by (simp add: handleEvent_headers read_forkProcEvent send_Fork_def)
  have exec: "handleEvent (encode_cnMsg m @ encode_procEventHeader (h\<lparr>What := PROC_EVENT_EXEC\<rparr>) @
                  encode_execProcEvent e @ pad) p =
       Inr (p\<lparr>delivered := delivered p @ [OnExec \<lparr>Exec_Pid = ucast (exec_ProcessTgid e)\<rparr>]\<rparr>)"
    using assms(2)
    by (simp add: handleEvent_headers read_execProcEvent send_Exec_def kinds_distinct)
  have exit: "handleEvent (encode_cnMsg m @ encode_procEventHeader (h\<lparr>What := PROC_EVENT_EXIT\<rparr>) @
                  encode_exitProcEvent x @ pad) p =
       Inr (p\<lparr>delivered := delivered p @ [OnExit \<lparr>Exit_Pid = ucast (exit_ProcessTgid x)\<rparr>]\<rparr>)"
    using assms(3)
    by (simp add: handleEvent_headers read_exitProcEvent send_Exit_def kinds_distinct)
  show ?thesis
    using fork exec exit ucast_32_64_inj by (simp add: sint_ucast_32_64) blast
qed

theorem reported_pids_are_tgids_witness:
  "\<not> Fork_closed sample_engine \<and> \<not> Exec_closed sample_engine \<and> \<not> Exit_closed sample_engine \<and>
   handleEvent (encode_cnMsg zero_cnMsg @
                encode_procEventHeader (zero_procEventHeader\<lparr>What := PROC_EVENT_FORK\<rparr>) @
                encode_forkProcEvent
                  \<lparr>ParentPid = 7, ParentTgid = 100, ChildPid = 8, ChildTgid = 101\<rparr> @ [])
     sample_engine =
     Inr (sample_engine\<lparr>delivered :=
            [OnFork \<lparr>Fork_ParentPid = 100, Fork_ChildPid = 101\<rparr>]\<rparr>) \<and>
   handleEvent (encode_cnMsg zero_cnMsg @
                encode_procEventHeader (zero_procEventHeader\<lparr>What := PROC_EVENT_EXEC\<rparr>) @
                encode_execProcEvent \<lparr>exec_ProcessPid = 9, exec_ProcessTgid = 55\<rparr> @ [])
     sample_engine =
     Inr (sample_engine\<lparr>delivered := [OnExec \<lparr>Exec_Pid = 55\<rparr>]\<rparr>) \<and>
   handleEvent (encode_cnMsg zero_cnMsg @
                encode_procEventHeader (zero_procEventHeader\<lparr>What := PROC_EVENT_EXIT\<rparr>) @
                encode_exitProcEvent
                  \<lparr>exit_ProcessPid = 9, exit_ProcessTgid = 55, ExitCode = 0, ExitSignal = 17\<rparr> @ [])
     sample_engine =
     Inr (sample_engine\<lparr>delivered := [OnExit \<lparr>Exit_Pid = 55\<rparr>]\<rparr>) \<and>
   (ucast (100 :: u32) :: go_int) \<noteq> ucast (7 :: u32)"
proof -
  have o: "\<not> Fork_closed sample_engine" "\<not> Exec_closed sample_engine"
    "\<not> Exit_closed sample_engine" "delivered sample_engine = []"
    by (simp_all add: sample_engine_def new_PsEvent_def)
  show ?thesis
    using o reported_pids_are_tgids [OF o(1) o(2) o(3),
        where m = zero_cnMsg and h = zero_procEventHeader and pad = "[]"
          and f = "\<lparr>ParentPid = 7, ParentTgid = 100, ChildPid = 8, ChildTgid = 101\<rparr>"
          and e = "\<lparr>exec_ProcessPid = 9, exec_ProcessTgid = 55\<rparr>"
          and x = "\<lparr>exit_ProcessPid = 9, exit_ProcessTgid = 55, ExitCode = 0, ExitSignal = 17\<rparr>"]
    by simp
qed

text \<open>
  C3, as the code has it. With the queues open \<open>handleEvent\<close> returns on every input,
  truncated or malformed: it never panics. It signals nothing: every read error is
  discarded, and nothing is put on the error queue. A payload too short to hold the
  connector header and the process-event header emits no event, and no payload emits
  more than one. The loop over the envelopes of a frame then goes on with the envelopes
  that follow.
\<close>

theorem handleEvent_never_fails:
  assumes "\<not> Fork_closed p" and "\<not> Exec_closed p" and "\<not> Exit_closed p"
  shows "\<exists>ds. handleEvent data p = Inr (p\<lparr>delivered := delivered p @ ds\<rparr>) \<and>
              length ds \<le> 1 \<and> filter is_error ds = [] \<and>
              (length data < Size_cnMsg + Size_procEventHeader \<longrightarrow> ds = []) \<and>
              handle_msgs (\<lparr>msg_Header = h, msg_Data = data\<rparr> # ms) p =
                handle_msgs ms
                  (p\<lparr>delivered := delivered p @ (if nl_Type h = NLMSG_DONE then ds else [])\<rparr>)"
proof -
  from handleEvent_open [OF assms, of data]
  obtain ds where ds: "handleEvent data p = Inr (p\<lparr>delivered := delivered p @ ds\<rparr>)"
    "length ds \<le> 1" "filter is_error ds = []"
    "length data < Size_cnMsg + Size_procEventHeader \<longrightarrow> ds = []"
    by blast
  have "handle_msgs (\<lparr>msg_Header = h, msg_Data = data\<rparr> # ms) p =
        handle_msgs ms (p\<lparr>delivered := delivered p @ (if nl_Type h = NLMSG_DONE then ds else [])\<rparr>)"
    by (simp add: ds(1))
  with ds show ?thesis by blast
qed

theorem handleEvent_never_fails_witness:
  "\<not> Fork_closed sample_engine \<and> \<not> Exec_closed sample_engine \<and> \<not> Exit_closed sample_engine \<and>
   (\<exists>ds. handleEvent [1, 2, 3] sample_engine =
            Inr (sample_engine\<lparr>delivered := delivered sample_engine @ ds\<rparr>) \<and>
          length ds \<le> 1 \<and> filter is_error ds = [] \<and> ds = [] \<and>
          handle_msgs (\<lparr>msg_Header = zero_NlMsghdr\<lparr>nl_Type := NLMSG_DONE\<rparr>,
                        msg_Data = [1, 2, 3]\<rparr> # []) sample_engine =
            handle_msgs [] (sample_engine\<lparr>delivered := delivered sample_engine @ ds\<rparr>))"
proof -
  have o: "\<not> Fork_closed sample_engine" "\<not> Exec_closed sample_engine"
    "\<not> Exit_closed sample_engine"
    by (simp_all add: sample_engine_def new_PsEvent_def)
  show ?thesis
    using o handleEvent_never_fails [OF o, of "[1, 2, 3]"
        "zero_NlMsghdr\<lparr>nl_Type := NLMSG_DONE\<rparr>" "[]"]
    by (simp add: Size_cnMsg_def Size_procEventHeader_def)
qed

text \<open>
  That a truncated payload is always skipped, with a failure signalled, does not hold.
  On a payload whose headers are complete and whose body is cut short, the fork body is
  read as zeros and an event with both pids zero is put on the fork queue; the envelope
  is not skipped and nothing goes to the error queue.
\<close>

theorem truncated_body_is_delivered:
  "handleEvent (encode_cnMsg zero_cnMsg @
                encode_procEventHeader (zero_procEventHeader\<lparr>What := PROC_EVENT_FORK\<rparr>) @
                [0x2A, 0, 0]) sample_engine =
     Inr (sample_engine\<lparr>delivered := [OnFork \<lparr>Fork_ParentPid = 0, Fork_ChildPid = 0\<rparr>]\<rparr>)"
  by (simp add: handleEvent_headers read_into_short Size_forkProcEvent_def zero_forkProcEvent_def
      send_Fork_def sample_engine_def new_PsEvent_def)



text \<open>
  C8. A payload with a complete connector header and a complete process-event header whose
  \<open>What\<close> is none of fork, exec and exit leaves the engine as it was: no event and no
  error are delivered. The same holds for the loop on a datagram holding such a message;
  it goes on to the next receive with the engine unchanged.
\<close>

theorem unknown_kind_dropped:
  assumes "What h \<notin> {PROC_EVENT_FORK, PROC_EVENT_EXEC, PROC_EVENT_EXIT}"
  shows "handleEvent (encode_cnMsg m @ encode_procEventHeader h @ rest) p = Inr p \<and>
         (done_chan p = [] \<and> 4 dvd length rest \<and> length rest < 2 ^ 30 \<longrightarrow>
            readEvents (RecvOk (envelope (nh\<lparr>nl_Type := NLMSG_DONE\<rparr>)
                          (encode_cnMsg m @ encode_procEventHeader h @ rest)) # rs) p =
              readEvents rs p)"
proof -
  let ?payload = "encode_cnMsg m @ encode_procEventHeader h @ rest"
  let ?nh = "nh\<lparr>nl_Type := NLMSG_DONE\<rparr>"
  have 1: "handleEvent ?payload p = Inr p"
    using assms by (simp add: handleEvent_headers)
  have 2: "readEvents (RecvOk (envelope ?nh ?payload) # rs) p = readEvents rs p"
    if d: "done_chan p = []" and al: "4 dvd length rest" and sm: "length rest < 2 ^ 30"
  proof -
    have l: "length ?payload = 36 + length rest"
      by (simp add: length_encode_cnMsg length_encode_procEventHeader)
    have wf: "length ?payload < 2 ^ 31" "4 dvd length ?payload"
      using al sm unfolding l by (simp, presburger)
    have "ParseNetlinkMessage (envelope ?nh ?payload) = Inr [envelope_msg ?nh ?payload]"
      using Parse_step [OF wf, of ?nh "[]" "[]"]
      by (simp add: ParseNetlinkMessage_def NLMSG_HDRLEN_def)
    then have "on_recv (RecvOk (envelope ?nh ?payload)) p = Inr p"
      using 1 by (simp add: on_recv_def length_envelope NLMSG_HDRLEN_def envelope_msg_def)
    with d show ?thesis by (simp add: isDone_empty)
  qed
  from 1 2 show ?thesis by blast
qed


theorem unknown_kind_dropped_witness:
  "What (zero_procEventHeader\<lparr>What := 4\<rparr>) \<notin> {PROC_EVENT_FORK, PROC_EVENT_EXEC, PROC_EVENT_EXIT} \<and>
   handleEvent (encode_cnMsg zero_cnMsg @
                encode_procEventHeader (zero_procEventHeader\<lparr>What := 4\<rparr>) @ [0, 0, 0, 0])
     sample_engine = Inr sample_engine \<and>
   done_chan sample_engine = [] \<and> 4 dvd length [0 :: byte, 0, 0, 0] \<and>
   length [0 :: byte, 0, 0, 0] < 2 ^ 30 \<and>
   readEvents [RecvOk (envelope (zero_NlMsghdr\<lparr>nl_Type := NLMSG_DONE\<rparr>)
       (encode_cnMsg zero_cnMsg @
        encode_procEventHeader (zero_procEventHeader\<lparr>What := 4\<rparr>) @ [0, 0, 0, 0]))]
     sample_engine = Blocked sample_engine"
proof -
  have k: "What (zero_procEventHeader\<lparr>What := 4\<rparr>) \<notin>
           {PROC_EVENT_FORK, PROC_EVENT_EXEC, PROC_EVENT_EXIT}"
    by (simp add: PROC_EVENT_FORK_def PROC_EVENT_EXEC_def PROC_EVENT_EXIT_def)
  have o: "done_chan sample_engine = []"
    by (simp add: sample_engine_def new_PsEvent_def)
  have c: "readEvents [] sample_engine = Blocked sample_engine"
    using o by (simp add: isDone_empty)
  have four: "length [0 :: byte, 0, 0, 0] = 4" by simp
  have al: "4 dvd length [0 :: byte, 0, 0, 0]" "length [0 :: byte, 0, 0, 0] < 2 ^ 30"
    unfolding four by simp_all
  note t = unknown_kind_dropped [OF k, of zero_cnMsg "[0, 0, 0, 0]" sample_engine
      zero_NlMsghdr "[]"]
  from t have 1: "handleEvent (encode_cnMsg zero_cnMsg @
                encode_procEventHeader (zero_procEventHeader\<lparr>What := 4\<rparr>) @ [0, 0, 0, 0])
     sample_engine = Inr sample_engine"
    by (rule conjunct1)
  from t o al have 2: "readEvents [RecvOk (envelope (zero_NlMsghdr\<lparr>nl_Type := NLMSG_DONE\<rparr>)
       (encode_cnMsg zero_cnMsg @
        encode_procEventHeader (zero_procEventHeader\<lparr>What := 4\<rparr>) @ [0, 0, 0, 0]))]
     sample_engine = readEvents [] sample_engine"
    by blast
  from k o al 1 2 c show ?thesis by (simp only: simp_thms)
qed

text \<open>
  C9. Dispatch does no filtering by pid. Whatever the watch table holds, and so whether
  or not a pid of the event is a key of it, a payload of a known kind is forwarded to
  the queue of its kind when the queues are open, and so is every message of a frame,
  in order. More generally \<open>handleEvent\<close> and the whole loop behave the same whatever
  \<open>watches\<close> holds: replacing the table before a run gives the same deliveries, the
  same closed queues and the same outcome, with the replaced table carried along
  untouched. No public operation fills the table: \<open>Listen\<close> starts with the empty (nil)
  map and \<open>Close\<close> leaves it as it is.
\<close>

theorem watches_never_consulted:
  "(\<not> Fork_closed p \<and> \<not> Exec_closed p \<and> \<not> Exit_closed p \<longrightarrow>
      handleEvent (payload_of ev) (p\<lparr>watches := w\<rparr>) =
        Inr (p\<lparr>watches := w, delivered := delivered p @ [expected (ev_body ev)]\<rparr>) \<and>
      handle_msgs (map msg_of evs) (p\<lparr>watches := w\<rparr>) =
        Inr (p\<lparr>watches := w,
               delivered := delivered p @ map (\<lambda>e. expected (ev_body e)) evs\<rparr>)) \<and>
   handleEvent data (p\<lparr>watches := w\<rparr>) =
     map_sum id (\<lambda>q. q\<lparr>watches := w\<rparr>) (handleEvent data p) \<and>
   readEvents rs (p\<lparr>watches := w\<rparr>) = set_watches w (readEvents rs p) \<and>
   watches (new_PsEvent l) = Map.empty \<and>
   watches (snd (snd (Close sys (k, p)))) = watches p"
proof -
  have fwd: "handleEvent (payload_of ev) (p\<lparr>watches := w\<rparr>) =
        Inr (p\<lparr>watches := w, delivered := delivered p @ [expected (ev_body ev)]\<rparr>) \<and>
      handle_msgs (map msg_of evs) (p\<lparr>watches := w\<rparr>) =
        Inr (p\<lparr>watches := w,
               delivered := delivered p @ map (\<lambda>e. expected (ev_body e)) evs\<rparr>)"
    if "\<not> Fork_closed p" and "\<not> Exec_closed p" and "\<not> Exit_closed p"
    using that handleEvent_payload [of "p\<lparr>watches := w\<rparr>" ev]
      handle_msgs_frame [of "p\<lparr>watches := w\<rparr>" evs]
    by simp
  have rest: "handleEvent data (p\<lparr>watches := w\<rparr>) =
       map_sum id (\<lambda>q. q\<lparr>watches := w\<rparr>) (handleEvent data p) \<and>
     readEvents rs (p\<lparr>watches := w\<rparr>) = set_watches w (readEvents rs p) \<and>
     watches (new_PsEvent l) = Map.empty \<and>
     watches (snd (snd (Close sys (k, p)))) = watches p"
    by (simp add: handleEvent_watches readEvents_watches new_PsEvent_def Close_def split_beta)
  from fwd rest show ?thesis by blast
qed

text \<open>
  At the sample engine with a table that watches pid 1 only: the fork of 100 into 101
  and the exec of 55 are forwarded all the same.
\<close>

theorem watches_never_consulted_witness:
  "\<not> Fork_closed sample_engine \<and> \<not> Exec_closed sample_engine \<and>
   \<not> Exit_closed sample_engine \<and>
   handleEvent (payload_of sample_fork)
     (sample_engine\<lparr>watches := [1 \<mapsto> \<lparr>flags = 0\<rparr>]\<rparr>) =
     Inr (sample_engine\<lparr>watches := [1 \<mapsto> \<lparr>flags = 0\<rparr>],
            delivered := [OnFork \<lparr>Fork_ParentPid = 100, Fork_ChildPid = 101\<rparr>]\<rparr>) \<and>
   handle_msgs [msg_of sample_fork, msg_of sample_exec]
     (sample_engine\<lparr>watches := [1 \<mapsto> \<lparr>flags = 0\<rparr>]\<rparr>) =
     Inr (sample_engine\<lparr>watches := [1 \<mapsto> \<lparr>flags = 0\<rparr>],
            delivered := [OnFork \<lparr>Fork_ParentPid = 100, Fork_ChildPid = 101\<rparr>,
                          OnExec \<lparr>Exec_Pid = 55\<rparr>]\<rparr>)"
proof -
  have o: "\<not> Fork_closed sample_engine \<and> \<not> Exec_closed sample_engine \<and>
           \<not> Exit_closed sample_engine"
    by (simp add: sample_engine_def new_PsEvent_def)
  have d: "delivered sample_engine = []"
    by (simp add: sample_engine_def new_PsEvent_def)
  have b: "expected (ev_body sample_fork) = OnFork \<lparr>Fork_ParentPid = 100, Fork_ChildPid = 101\<rparr>"
    "expected (ev_body sample_exec) = OnExec \<lparr>Exec_Pid = 55\<rparr>"
    by (simp_all add: sample_fork_def sample_exec_def)
  let ?E = "sample_engine\<lparr>watches := [1 \<mapsto> \<lparr>flags = 0\<rparr>]\<rparr>"
  have "handleEvent (payload_of sample_fork) ?E =
          Inr (sample_engine\<lparr>watches := [1 \<mapsto> \<lparr>flags = 0\<rparr>],
                 delivered := delivered sample_engine @ [expected (ev_body sample_fork)]\<rparr>) \<and>
        handle_msgs (map msg_of [sample_fork, sample_exec]) ?E =
          Inr (sample_engine\<lparr>watches := [1 \<mapsto> \<lparr>flags = 0\<rparr>],
                 delivered := delivered sample_engine @
                   map (\<lambda>e. expected (ev_body e)) [sample_fork, sample_exec]\<rparr>)"
    using o watches_never_consulted [of sample_engine sample_fork "[1 \<mapsto> \<lparr>flags = 0\<rparr>]"
        "[sample_fork, sample_exec]"]
    by blast
  with o show ?thesis by (simp add: b d del: handle_msgs.simps)
qed

section \<open>The capture loop\<close>

text \<open>
  C6. While the loop is running and the error queue is open, a failure of \<open>Recvfrom\<close>
  puts its error on the error queue, a datagram shorter than \<open>NLMSG_HDRLEN\<close> puts
  \<open>EINVAL\<close> there and yields no event, and in both cases the loop goes on with the next
  receive. After any run of such results the loop is still waiting in \<open>Recvfrom\<close>, with
  one error delivered per result, in order.
\<close>

theorem receive_errors_not_fatal:
  assumes "done_chan p = []" and "\<not> Error_closed p"
  shows "readEvents (RecvErr err # rs) p =
           readEvents rs (p\<lparr>delivered := delivered p @ [OnError err]\<rparr>) \<and>
         (length frame < NLMSG_HDRLEN \<longrightarrow>
            readEvents (RecvOk frame # rs) p =
              readEvents rs (p\<lparr>delivered := delivered p @ [OnError EINVAL]\<rparr>)) \<and>
         ((\<forall>r\<in>set fs. recv_fails r) \<longrightarrow>
            readEvents fs p =
              Blocked (p\<lparr>delivered := delivered p @ map (\<lambda>r. OnError (recv_error r)) fs\<rparr>))"
proof -
  have 1: "readEvents (RecvErr err # rs) p =
           readEvents rs (p\<lparr>delivered := delivered p @ [OnError err]\<rparr>)"
    using readEvents_failures [OF assms, of "[RecvErr err]" rs] by simp
  have 2: "readEvents (RecvOk frame # rs) p =
           readEvents rs (p\<lparr>delivered := delivered p @ [OnError EINVAL]\<rparr>)"
    if "length frame < NLMSG_HDRLEN"
    using that readEvents_failures [OF assms, of "[RecvOk frame]" rs] by simp
  have 3: "readEvents fs p =
           Blocked (p\<lparr>delivered := delivered p @ map (\<lambda>r. OnError (recv_error r)) fs\<rparr>)"
    if "\<forall>r\<in>set fs. recv_fails r"
    using readEvents_failures [OF assms that, of "[]"] assms(1)
    by (simp add: isDone_empty)
  from 1 2 3 show ?thesis by blast
qed


theorem receive_errors_not_fatal_witness:
  "done_chan sample_engine = [] \<and> \<not> Error_closed sample_engine \<and>
   readEvents (RecvErr EBADF # []) sample_engine =
     readEvents [] (sample_engine\<lparr>delivered := delivered sample_engine @ [OnError EBADF]\<rparr>) \<and>
   length [1 :: byte, 2, 3] < NLMSG_HDRLEN \<and>
   readEvents (RecvOk [1, 2, 3] # []) sample_engine =
     readEvents [] (sample_engine\<lparr>delivered := delivered sample_engine @ [OnError EINVAL]\<rparr>) \<and>
   recv_fails (RecvErr EBADF) \<and> recv_fails (RecvOk [1, 2, 3]) \<and>
   readEvents [RecvErr EBADF, RecvOk [1, 2, 3]] sample_engine =
     Blocked (sample_engine\<lparr>delivered := [OnError EBADF, OnError EINVAL]\<rparr>)"
proof -
  have o: "done_chan sample_engine = []" "\<not> Error_closed sample_engine"
    by (simp_all add: sample_engine_def new_PsEvent_def)
  have d: "delivered sample_engine = []"
    by (simp add: sample_engine_def new_PsEvent_def)
  have l: "length [1 :: byte, 2, 3] < NLMSG_HDRLEN" by (simp add: NLMSG_HDRLEN_def)
  show ?thesis
    using o l receive_errors_not_fatal [OF o, of EBADF "[]" "[1, 2, 3]"
        "[RecvErr EBADF, RecvOk [1, 2, 3]]"]
    by (simp add: d)
qed

text \<open>
  C1, as the code has it. \<open>Close\<close> sends the ignore frame and closes the socket, and that
  is all: it puts nothing on \<open>done\<close>. So after \<open>Close\<close> on a running engine, its
  listener bound and its queues open as \<open>Listen\<close> leaves them, \<open>isDone\<close> still answers
  false, and for every further run of \<open>Recvfrom\<close> results the loop neither returns nor
  closes a queue; it stays in \<open>Recvfrom\<close> and keeps delivering. The stop signal that the
  comment on \<open>isDone\<close> attributes to \<open>Close\<close> is never sent.
\<close>

theorem Close_leaves_loop_running:
  assumes bound: "addr (listener p) \<noteq> None"
    and running: "done_chan p = []"
    and opn: "\<not> Fork_closed p" "\<not> Exec_closed p" "\<not> Exit_closed p" "\<not> Error_closed p"
  shows "done_chan (snd (snd (Close sys (k, p)))) = [] \<and>
         isDone (snd (snd (Close sys (k, p)))) = Inr (False, snd (snd (Close sys (k, p)))) \<and>
         (\<exists>ds. readEvents rs (snd (snd (Close sys (k, p)))) =
                 Blocked ((snd (snd (Close sys (k, p))))\<lparr>delivered := delivered p @ ds\<rparr>))"
proof -
  let ?q = "p\<lparr>listener := (listener p)\<lparr>seq := seq (listener p) + 1\<rparr>\<rparr>"
  have q: "snd (snd (Close sys (k, p))) = ?q" by (simp add: Close_eq)
  have "\<exists>ds. readEvents rs ?q = Blocked (?q\<lparr>delivered := delivered ?q @ ds\<rparr>)"
    using running opn by (intro readEvents_running) simp_all
  with running show ?thesis unfolding q by (simp add: isDone_empty)
qed

text \<open>
  At the engine that \<open>Listen\<close> returns: \<open>Close\<close> succeeds, the ignore frame follows the
  listen frame and descriptor 3 is closed, yet \<open>done\<close> is empty and the loop, told by
  \<open>Recvfrom\<close> that the descriptor is bad, delivers the error and waits in \<open>Recvfrom\<close>
  again with its queues open.
\<close>

theorem Close_leaves_loop_running_witness:
  "Listen sample_syscalls \<lparr>open_fds = {}, sent = []\<rparr> = (Inr sample_engine, sample_kernel) \<and>
   addr (listener sample_engine) \<noteq> None \<and>
   done_chan sample_engine = [] \<and>
   \<not> Fork_closed sample_engine \<and> \<not> Exec_closed sample_engine \<and>
   \<not> Exit_closed sample_engine \<and> \<not> Error_closed sample_engine \<and>
   Close sample_syscalls (sample_kernel, sample_engine) =
     (None,
      \<lparr>open_fds = {},
        sent = [(3, send_buf 1 42 PROC_CN_MCAST_LISTEN), (3, send_buf 2 42 PROC_CN_MCAST_IGNORE)]\<rparr>,
      sample_engine\<lparr>listener := sample_listener\<lparr>seq := 2\<rparr>\<rparr>) \<and>
   done_chan (snd (snd (Close sample_syscalls (sample_kernel, sample_engine)))) = [] \<and>
   readEvents [RecvErr EBADF]
       (snd (snd (Close sample_syscalls (sample_kernel, sample_engine)))) =
     Blocked (sample_engine\<lparr>listener := sample_listener\<lparr>seq := 2\<rparr>,
                            delivered := [OnError EBADF]\<rparr>)"
proof -
  have b: "addr (listener sample_engine) \<noteq> None"
    by (simp add: sample_engine_def new_PsEvent_def sample_listener_def)
  have o: "done_chan sample_engine = []"
    "\<not> Fork_closed sample_engine" "\<not> Exec_closed sample_engine"
    "\<not> Exit_closed sample_engine" "\<not> Error_closed sample_engine"
    by (simp_all add: sample_engine_def new_PsEvent_def)
  have c: "Close sample_syscalls (sample_kernel, sample_engine) =
     (None,
      \<lparr>open_fds = {},
        sent = [(3, send_buf 1 42 PROC_CN_MCAST_LISTEN), (3, send_buf 2 42 PROC_CN_MCAST_IGNORE)]\<rparr>,
      sample_engine\<lparr>listener := sample_listener\<lparr>seq := 2\<rparr>\<rparr>)"
    by (simp add: Close_eq sample_syscalls_def sample_kernel_def sample_engine_def
        new_PsEvent_def sample_listener_def)
  have r: "readEvents [RecvErr EBADF]
       (sample_engine\<lparr>listener := sample_listener\<lparr>seq := 2\<rparr>\<rparr>) =
     Blocked (sample_engine\<lparr>listener := sample_listener\<lparr>seq := 2\<rparr>,
                            delivered := [OnError EBADF]\<rparr>)"
    by (simp add: isDone_def on_recv_def send_Error_def sample_engine_def new_PsEvent_def)
  from b o c r Listen_sample
    Close_leaves_loop_running [OF b o, of sample_syscalls sample_kernel "[RecvErr EBADF]"]
  show ?thesis by simp
qed

section \<open>Opening the listener\<close>

text \<open>
  C2, as the code has it. When \<open>Socket\<close> succeeds and \<open>Bind\<close> or the first \<open>Sendto\<close>
  fails, \<open>Listen\<close> returns the error and no engine, and the descriptor is still open in
  the kernel: neither \<open>bind\<close> nor \<open>createListener\<close> nor \<open>Listen\<close> closes it.
\<close>

theorem open_failure_keeps_socket_open:
  assumes "Socket_result sys = Inr s"
    and "Bind_result sys = Some err \<or> (Bind_result sys = None \<and> Sendto_result sys = Some err)"
  shows "Listen sys k = (Inl err, k\<lparr>open_fds := insert s (open_fds k)\<rparr>) \<and>
         s \<in> open_fds (snd (Listen sys k))"
  using assms
  by (auto simp: Listen_def createListener_def bind_def send_eq Let_def)

theorem open_failure_keeps_socket_open_witness:
  "Socket_result (sample_syscalls\<lparr>Sendto_result := Some EPERM\<rparr>) = Inr 3 \<and>
   Bind_result (sample_syscalls\<lparr>Sendto_result := Some EPERM\<rparr>) = None \<and>
   Sendto_result (sample_syscalls\<lparr>Sendto_result := Some EPERM\<rparr>) = Some EPERM \<and>
   Listen (sample_syscalls\<lparr>Sendto_result := Some EPERM\<rparr>) \<lparr>open_fds = {}, sent = []\<rparr> =
     (Inl EPERM, \<lparr>open_fds = {3}, sent = []\<rparr>)"
proof -
  let ?sys = "sample_syscalls\<lparr>Sendto_result := Some EPERM\<rparr>"
  have a: "Socket_result ?sys = Inr 3" by (simp add: sample_syscalls_def)
  have b: "Bind_result ?sys = None" "Sendto_result ?sys = Some EPERM"
    by (simp_all add: sample_syscalls_def)
  then have c: "Bind_result ?sys = Some EPERM \<or>
      (Bind_result ?sys = None \<and> Sendto_result ?sys = Some EPERM)" by simp
  from a b open_failure_keeps_socket_open [OF a c, of "\<lparr>open_fds = {}, sent = []\<rparr>"]
  show ?thesis by simp
qed

text \<open>
  That the descriptor is released before the error is returned does not hold: when
  \<open>Bind\<close> is refused, the error comes back with descriptor 3 open.
\<close>

theorem bind_failure_leaks_socket:
  "Listen (sample_syscalls\<lparr>Bind_result := Some EPERM\<rparr>) \<lparr>open_fds = {}, sent = []\<rparr> =
     (Inl EPERM, \<lparr>open_fds = {3}, sent = []\<rparr>)"
  by (simp add: Listen_def createListener_def bind_def sample_syscalls_def Let_def)

end
